theory Spec2Isabelle
  imports Main "HOL-Library.Product_Lexorder" "HOL-Library.Monad_Syntax"
begin

section \<open>Python strings\<close>

text \<open>
  A Python \<open>str\<close> is a sequence of Unicode code points, so a string is a list of
  natural numbers and its length counts code points. \<open>str\<close> turns an ASCII literal
  into such a list.
\<close>

type_synonym pystr = "nat list"

definition str :: "string \<Rightarrow> pystr" where
  "str cs = map of_char cs"

text \<open>
  \<open>str.isspace\<close> on one code point: the white-space table of CPython
  (TAB..CR, FS..US and SPACE, NEL, NBSP, U+1680, U+2000..U+200A, U+2028, U+2029,
  U+202F, U+205F, U+3000).
\<close>

definition isspace :: "nat \<Rightarrow> bool" where
  "isspace c \<longleftrightarrow>
     (9 \<le> c \<and> c \<le> 13) \<or> (28 \<le> c \<and> c \<le> 32) \<or> c = 133 \<or> c = 160 \<or> c = 5760 \<or>
     (8192 \<le> c \<and> c \<le> 8202) \<or> c = 8232 \<or> c = 8233 \<or> c = 8239 \<or> c = 8287 \<or>
     c = 12288"

definition nonspace :: "nat \<Rightarrow> bool" where
  "nonspace c \<longleftrightarrow> \<not> isspace c"

text \<open>\<open>s.strip()\<close> with no argument removes white space at both ends.\<close>

definition lstrip :: "pystr \<Rightarrow> pystr" where
  "lstrip s = dropWhile isspace s"

definition rstrip :: "pystr \<Rightarrow> pystr" where
  "rstrip s = rev (dropWhile isspace (rev s))"

definition strip :: "pystr \<Rightarrow> pystr" where
  "strip s = lstrip (rstrip s)"

text \<open>
  \<open>s.rsplit(maxsplit=n)\<close> with no separator scans from the end of the string:
  it skips white space, cuts off a run of other characters as an item, and does so at
  most \<open>n\<close> times; what is left in front, with the white space at its end removed, is
  the first item unless it is empty. \<open>rsplit_from_end\<close> runs on the reversed text.
\<close>

fun rsplit_from_end :: "nat \<Rightarrow> pystr \<Rightarrow> pystr list" where
  "rsplit_from_end 0 r =
     (let r' = dropWhile isspace r in if r' = [] then [] else [rev r'])"
| "rsplit_from_end (Suc n) r =
     (let r' = dropWhile isspace r in
      if r' = [] then []
      else rsplit_from_end n (dropWhile nonspace r') @ [rev (takeWhile nonspace r')])"

definition rsplit :: "pystr \<Rightarrow> nat \<Rightarrow> pystr list" where
  "rsplit s maxsplit = rsplit_from_end maxsplit (rev s)"

text \<open>\<open>" ".join(xs)\<close>.\<close>

fun join_space :: "pystr list \<Rightarrow> pystr" where
  "join_space [] = []"
| "join_space [x] = x"
| "join_space (x # y # ys) = x @ [32] @ join_space (y # ys)"

text \<open>\<open>xs[-2:]\<close>: the last two items, or all of them when there are fewer.\<close>

definition last_two :: "'a list \<Rightarrow> 'a list" where
  "last_two xs = drop (length xs - 2) xs"

text \<open>
  \<open>s[:-n]\<close>: the text without its last \<open>n\<close> code points. For \<open>n = 0\<close> the stop
  index is \<open>0\<close> and the slice is empty; for \<open>n\<close> beyond the length it is empty too.
\<close>

definition slice_before_last :: "pystr \<Rightarrow> nat \<Rightarrow> pystr" where
  "slice_before_last s n = (if n = 0 then [] else take (length s - n) s)"

section \<open>Naive datetimes and \<open>strptime\<close>\<close>

record datetime =
  year :: nat
  month :: nat
  day :: nat
  hour :: nat
  minute :: nat
  second :: nat
  microsecond :: nat

text \<open>Naive datetimes compare field by field, the year first.\<close>

definition dt_key :: "datetime \<Rightarrow> nat \<times> nat \<times> nat \<times> nat \<times> nat \<times> nat \<times> nat" where
  "dt_key d = (year d, month d, day d, hour d, minute d, second d, microsecond d)"

definition dt_less :: "datetime \<Rightarrow> datetime \<Rightarrow> bool" where
  "dt_less a b \<longleftrightarrow> dt_key a < dt_key b"

definition is_leap :: "nat \<Rightarrow> bool" where
  "is_leap y \<longleftrightarrow> y mod 4 = 0 \<and> (y mod 100 \<noteq> 0 \<or> y mod 400 = 0)"

definition days_in_month :: "nat \<Rightarrow> nat \<Rightarrow> nat" where
  "days_in_month y m =
     (if m = 2 then (if is_leap y then 29 else 28)
      else if m = 4 \<or> m = 6 \<or> m = 9 \<or> m = 11 then 30 else 31)"

text \<open>
  \<open>datetime.strptime(s, "%Y-%m-%d %H:%M")\<close>. The library turns the format into the
  pattern
  \<^verbatim>\<open>(\d\d\d\d)-(1[0-2]|0[1-9]|[1-9])-(3[0-1]|[1-2]\d|0[1-9]|[1-9]| [1-9])\s+(2[0-3]|[0-1]\d|\d):([0-5]\d|\d)\<close>,
  matches it at the start of the string, raises \<open>ValueError\<close> when it does not match
  or when text is left over, and raises it again when the fields are not a date of the
  calendar (year 0, day 31 of a 30-day month). The result is \<open>None\<close> for
  \<open>ValueError\<close>.

  In the pattern a bracket such as \<open>[0-2]\<close> names ASCII digits, and \<open>\d\<close> stands for
  any decimal digit of Unicode, which \<open>int\<close> then converts: the year, the second digit of
  a day from 10 to 29, the second digit of an hour below 20, a one-digit hour, the second
  digit of a two-digit minute and a one-digit minute may be written in any script. Which
  code points beyond ASCII are decimal digits, and with which value, is a table of the
  Unicode database the interpreter was built with. That table is the parameter \<open>ucd\<close>
  of the parser and of everything that calls it: \<open>ucd c\<close> is the digit value of the
  code point \<open>c \<ge> 128\<close> if it is a decimal digit. Below 128 the digits are \<open>0\<close> to
  \<open>9\<close>.

  Each scanner below takes the first alternative of its group that fits and hands the
  rest of the string on. An alternative further right never succeeds where an earlier
  one fits: the character that must follow the group would have to be the decimal digit
  the earlier alternative consumed, and no decimal digit is a hyphen, a colon or white
  space.
\<close>

type_synonym digit_table = "nat \<Rightarrow> nat option"

definition decimal :: "digit_table \<Rightarrow> nat \<Rightarrow> nat option" where
  "decimal ucd c =
     (if c < 128 then (if 48 \<le> c \<and> c \<le> 57 then Some (c - 48) else None) else ucd c)"

definition isdecimal :: "digit_table \<Rightarrow> nat \<Rightarrow> bool" where
  "isdecimal ucd c \<longleftrightarrow> decimal ucd c \<noteq> None"

definition dval :: "digit_table \<Rightarrow> nat \<Rightarrow> nat" where
  "dval ucd c = (case decimal ucd c of Some v \<Rightarrow> v | None \<Rightarrow> 0)"

text \<open>The ASCII digits from \<open>lo\<close> to \<open>hi\<close>, and the value of an ASCII digit.\<close>

definition digit_in :: "nat \<Rightarrow> nat \<Rightarrow> nat \<Rightarrow> bool" where
  "digit_in lo hi c \<longleftrightarrow> 48 + lo \<le> c \<and> c \<le> 48 + hi"

definition aval :: "nat \<Rightarrow> nat" where
  "aval c = c - 48"

fun scan_Y :: "digit_table \<Rightarrow> pystr \<Rightarrow> (nat \<times> pystr) option" where
  "scan_Y ucd (a # b # c # d # r) =
     (if isdecimal ucd a \<and> isdecimal ucd b \<and> isdecimal ucd c \<and> isdecimal ucd d
      then Some (1000 * dval ucd a + 100 * dval ucd b + 10 * dval ucd c + dval ucd d, r)
      else None)"
| "scan_Y ucd _ = None"

fun scan_m :: "pystr \<Rightarrow> (nat \<times> pystr) option" where
  "scan_m (a # b # r) =
     (if a = 49 \<and> digit_in 0 2 b then Some (10 + aval b, r)
      else if a = 48 \<and> digit_in 1 9 b then Some (aval b, r)
      else if digit_in 1 9 a then Some (aval a, b # r)
      else None)"
| "scan_m [a] = (if digit_in 1 9 a then Some (aval a, []) else None)"
| "scan_m [] = None"

fun scan_d :: "digit_table \<Rightarrow> pystr \<Rightarrow> (nat \<times> pystr) option" where
  "scan_d ucd (a # b # r) =
     (if a = 51 \<and> digit_in 0 1 b then Some (30 + aval b, r)
      else if digit_in 1 2 a \<and> isdecimal ucd b then Some (10 * aval a + dval ucd b, r)
      else if a = 48 \<and> digit_in 1 9 b then Some (aval b, r)
      else if digit_in 1 9 a then Some (aval a, b # r)
      else if a = 32 \<and> digit_in 1 9 b then Some (aval b, r)
      else None)"
| "scan_d ucd [a] = (if digit_in 1 9 a then Some (aval a, []) else None)"
| "scan_d ucd [] = None"

fun scan_H :: "digit_table \<Rightarrow> pystr \<Rightarrow> (nat \<times> pystr) option" where
  "scan_H ucd (a # b # r) =
     (if a = 50 \<and> digit_in 0 3 b then Some (20 + aval b, r)
      else if digit_in 0 1 a \<and> isdecimal ucd b then Some (10 * aval a + dval ucd b, r)
      else if isdecimal ucd a then Some (dval ucd a, b # r)
      else None)"
| "scan_H ucd [a] = (if isdecimal ucd a then Some (dval ucd a, []) else None)"
| "scan_H ucd [] = None"

fun scan_M :: "digit_table \<Rightarrow> pystr \<Rightarrow> (nat \<times> pystr) option" where
  "scan_M ucd (a # b # r) =
     (if digit_in 0 5 a \<and> isdecimal ucd b then Some (10 * aval a + dval ucd b, r)
      else if isdecimal ucd a then Some (dval ucd a, b # r)
      else None)"
| "scan_M ucd [a] = (if isdecimal ucd a then Some (dval ucd a, []) else None)"
| "scan_M ucd [] = None"

fun scan_char :: "nat \<Rightarrow> pystr \<Rightarrow> pystr option" where
  "scan_char c (a # r) = (if a = c then Some r else None)"
| "scan_char c [] = None"

definition scan_spaces :: "pystr \<Rightarrow> pystr option" where
  "scan_spaces s = (case s of [] \<Rightarrow> None
                    | a # r \<Rightarrow> if isspace a then Some (dropWhile isspace r) else None)"

definition strptime :: "digit_table \<Rightarrow> pystr \<Rightarrow> datetime option" where
  "strptime ucd s = do {
     (y, s1) \<leftarrow> scan_Y ucd s;
     s2 \<leftarrow> scan_char 45 s1;
     (m, s3) \<leftarrow> scan_m s2;
     s4 \<leftarrow> scan_char 45 s3;
     (d, s5) \<leftarrow> scan_d ucd s4;
     s6 \<leftarrow> scan_spaces s5;
     (h, s7) \<leftarrow> scan_H ucd s6;
     s8 \<leftarrow> scan_char 58 s7;
     (mi, s9) \<leftarrow> scan_M ucd s8;
     if s9 \<noteq> [] then None
     else if y = 0 \<or> days_in_month y m < d then None
     else Some \<lparr>year = y, month = m, day = d, hour = h, minute = mi,
                second = 0, microsecond = 0\<rparr>
   }"

section \<open>The task store\<close>

text \<open>
  A row of the table \<open>tasks\<close> (class \<open>Task\<close>); \<open>id_col\<close> is its column \<open>id\<close>.
\<close>

record task =
  id_col :: int
  user_id :: int
  description :: pystr
  scheduled_time :: datetime

text \<open>
  A job of the scheduler as \<open>scheduler.add_job\<close> stores it: the trigger's run date,
  the positional arguments of the call (\<open>args=[message.from_user.id, description]\<close>) and
  the grace time. The function called is always \<open>send_reminder\<close>.
\<close>

record job =
  run_date :: datetime
  args :: "int \<times> pystr"
  misfire_grace_time :: nat

datatype AddTaskState = waiting_for_details

text \<open>
  What \<open>bot.send_message\<close> may raise: an instance of \<open>Exception\<close>, or an exception
  that derives from \<open>BaseException\<close> only (a cancellation, an interrupt).
\<close>

datatype exc = Exception pystr | BaseException pystr

text \<open>
  The texts the bot sends, one constructor for each literal or f-string of
  \<open>bot/main.py\<close>, with the values the f-string interpolates as arguments:
  \<open>Reminder_text\<close> is line 77, \<open>Bad_format\<close> line 145, \<open>Bad_datetime\<close> line 153,
  \<open>Task_added\<close> line 167 (description and \<open>datetime_str\<close>), \<open>Added_without_reminder\<close>
  line 169, \<open>Task_card\<close> line 122 (index, description, scheduled time) with the id its
  two buttons carry.
\<close>

datatype text_out =
    Greeting
  | Ask_task_details
  | No_tasks
  | Task_card nat pystr datetime int
  | Help_text
  | Bad_format
  | Bad_datetime
  | Task_added pystr pystr
  | Added_without_reminder
  | Confirm_delete_prompt int
  | Task_deleted
  | Action_cancelled
  | Ask_new_description
  | Task_updated
  | Reminder_text pystr

text \<open>
  The state the handlers share: the table, the scheduler's pending jobs, the FSM storage
  (state and \<open>edit_task_id\<close> of each user), the messages that reached a chat, what
  \<open>print\<close> wrote, the wall clock read by \<open>datetime.now()\<close>, and for each chat the
  exception that \<open>bot.send_message\<close> to it raises at present, if any.
\<close>

record bot_state =
  tasks :: "task list"
  jobs :: "job list"
  fsm_state :: "int \<Rightarrow> AddTaskState option"
  fsm_data :: "int \<Rightarrow> int option"
  sent :: "(int \<times> text_out) list"
  printed :: "exc list"
  now :: datetime
  transport :: "int \<Rightarrow> exc option"

text \<open>
  The store assigns the primary key. The model takes one more than the largest key
  present (the rowid rule of SQLite), so the key of a deleted last row is given out
  again.
\<close>

definition new_id :: "task list \<Rightarrow> int" where
  "new_id ts = fold max (map id_col ts) 0 + 1"

definition add_task_db :: "int \<Rightarrow> pystr \<Rightarrow> datetime \<Rightarrow> bot_state \<Rightarrow> bot_state" where
  "add_task_db uid descr time s =
     s\<lparr>tasks := tasks s @
        [\<lparr>id_col = new_id (tasks s), user_id = uid, description = descr,
          scheduled_time = time\<rparr>]\<rparr>"

definition get_tasks_db :: "int \<Rightarrow> bot_state \<Rightarrow> task list" where
  "get_tasks_db uid s = filter (\<lambda>t. user_id t = uid) (tasks s)"

definition delete_task_db :: "int \<Rightarrow> bot_state \<Rightarrow> bot_state" where
  "delete_task_db task_id s = s\<lparr>tasks := filter (\<lambda>t. id_col t \<noteq> task_id) (tasks s)\<rparr>"

definition update_task_db :: "int \<Rightarrow> pystr \<Rightarrow> bot_state \<Rightarrow> bot_state" where
  "update_task_db task_id new_description s =
     s\<lparr>tasks := map (\<lambda>t. if id_col t = task_id then t\<lparr>description := new_description\<rparr> else t)
                    (tasks s)\<rparr>"

section \<open>Reminders and the scheduler\<close>

text \<open>
  \<open>send_reminder\<close>: the \<open>try\<close> sends the text; \<open>except Exception\<close> prints the error
  and returns; any other exception leaves the function (\<open>Inl\<close>).
\<close>

definition send_reminder :: "int \<Rightarrow> pystr \<Rightarrow> bot_state \<Rightarrow> exc + bot_state" where
  "send_reminder uid task_description s =
     (case transport s uid of
        None \<Rightarrow> Inr (s\<lparr>sent := sent s @ [(uid, Reminder_text task_description)]\<rparr>)
      | Some (Exception e) \<Rightarrow> Inr (s\<lparr>printed := printed s @ [Exception e]\<rparr>)
      | Some (BaseException e) \<Rightarrow> Inl (BaseException e))"

text \<open>
  The scheduler is a library. The model keeps what \<open>bot/main.py\<close> relies on:
  \<open>add_job\<close> stores the call with its arguments; once the run date has come the
  scheduler takes the job out of its store and calls \<open>send_reminder\<close> with the stored
  arguments (\<open>fire\<close>), catching whatever the call raises; a job whose run date has
  passed may instead be dropped without a call (\<open>misfire\<close>, which the library does
  when the job is later than its grace time). \<open>fire\<close> and \<open>misfire\<close> name the job
  by its position and do nothing when it is not due.
\<close>

definition add_job :: "datetime \<Rightarrow> int \<times> pystr \<Rightarrow> nat \<Rightarrow> bot_state \<Rightarrow> bot_state" where
  "add_job time as grace s =
     s\<lparr>jobs := jobs s @ [\<lparr>run_date = time, args = as, misfire_grace_time = grace\<rparr>]\<rparr>"

definition remove_job :: "nat \<Rightarrow> bot_state \<Rightarrow> bot_state" where
  "remove_job i s = s\<lparr>jobs := take i (jobs s) @ drop (Suc i) (jobs s)\<rparr>"

definition due :: "nat \<Rightarrow> bot_state \<Rightarrow> bool" where
  "due i s \<longleftrightarrow> i < length (jobs s) \<and> \<not> dt_less (now s) (run_date (jobs s ! i))"

definition fire :: "nat \<Rightarrow> bot_state \<Rightarrow> bot_state" where
  "fire i s =
     (if due i s then
        (case send_reminder (fst (args (jobs s ! i))) (snd (args (jobs s ! i))) (remove_job i s) of
           Inr s' \<Rightarrow> s'
         | Inl e \<Rightarrow> remove_job i s)
      else s)"

definition misfire :: "nat \<Rightarrow> bot_state \<Rightarrow> bot_state" where
  "misfire i s =
     (if i < length (jobs s) \<and> dt_less (run_date (jobs s ! i)) (now s) then remove_job i s
      else s)"

section \<open>The handlers\<close>

text \<open>
  \<open>message.answer\<close> and \<open>callback.message.answer\<close> write into the chat the update
  came from, which for this bot is the user's private chat; the model takes these replies
  as delivered (\<open>edit_text\<close> is recorded as a reply as well, and the empty
  \<open>callback.answer()\<close> acknowledgements are left out). The FSM context of a handler is
  the storage entry of the user.
\<close>

definition answer :: "int \<Rightarrow> text_out \<Rightarrow> bot_state \<Rightarrow> bot_state" where
  "answer chat t s = s\<lparr>sent := sent s @ [(chat, t)]\<rparr>"

definition set_state :: "int \<Rightarrow> AddTaskState \<Rightarrow> bot_state \<Rightarrow> bot_state" where
  "set_state uid st s = s\<lparr>fsm_state := (fsm_state s)(uid \<mapsto> st)\<rparr>"

definition update_data :: "int \<Rightarrow> int \<Rightarrow> bot_state \<Rightarrow> bot_state" where
  "update_data uid edit_task_id s = s\<lparr>fsm_data := (fsm_data s)(uid \<mapsto> edit_task_id)\<rparr>"

definition state_clear :: "int \<Rightarrow> bot_state \<Rightarrow> bot_state" where
  "state_clear uid s =
     s\<lparr>fsm_state := (fsm_state s)(uid := None), fsm_data := (fsm_data s)(uid := None)\<rparr>"

definition start_handler :: "int \<Rightarrow> bot_state \<Rightarrow> bot_state" where
  "start_handler uid s = answer uid Greeting s"

definition menu_add_task_handler :: "int \<Rightarrow> bot_state \<Rightarrow> bot_state" where
  "menu_add_task_handler uid s = answer uid Ask_task_details (set_state uid waiting_for_details s)"

definition menu_view_tasks_handler :: "int \<Rightarrow> bot_state \<Rightarrow> bot_state" where
  "menu_view_tasks_handler uid s =
     (let ts = get_tasks_db uid s in
      if ts = [] then answer uid No_tasks s
      else fold (\<lambda>(idx, t). answer uid (Task_card idx (description t) (scheduled_time t) (id_col t)))
             (zip [1 ..< Suc (length ts)] ts) s)"

definition menu_help_handler :: "int \<Rightarrow> bot_state \<Rightarrow> bot_state" where
  "menu_help_handler uid s = answer uid Help_text s"

text \<open>
  Lines 143 to 154 of \<open>process_task_details\<close>: the text is cut into at most three
  parts from the right; with fewer than two parts the handler answers and returns
  (\<open>Wrong_format\<close>); \<open>datetime_str\<close> is the last two parts joined by one space, the
  description is the text without its last \<open>len(datetime_str)\<close> characters, stripped;
  when \<open>strptime\<close> raises \<open>ValueError\<close> the handler answers and returns
  (\<open>Wrong_datetime\<close>). Otherwise the three locals \<open>description\<close>, \<open>datetime_str\<close>
  and \<open>scheduled_time\<close> are the result.
\<close>

datatype parse_error = Wrong_format | Wrong_datetime

definition parse_details :: "digit_table \<Rightarrow> pystr \<Rightarrow> parse_error + (pystr \<times> pystr \<times> datetime)" where
  "parse_details ucd text =
     (let parts = rsplit text 2 in
      if length parts < 2 then Inl Wrong_format
      else
        let datetime_str = join_space (last_two parts);
            descr = strip (slice_before_last text (length datetime_str))
        in (case strptime ucd datetime_str of
              None \<Rightarrow> Inl Wrong_datetime
            | Some time \<Rightarrow> Inr (descr, datetime_str, time)))"

definition process_task_details :: "digit_table \<Rightarrow> int \<Rightarrow> pystr \<Rightarrow> bot_state \<Rightarrow> bot_state" where
  "process_task_details ucd from_user text s =
     (case parse_details ucd text of
        Inl Wrong_format \<Rightarrow> answer from_user Bad_format s
      | Inl Wrong_datetime \<Rightarrow> answer from_user Bad_datetime s
      | Inr (descr, datetime_str, time) \<Rightarrow>
          let s1 = add_task_db from_user descr time s;
              s2 = (if dt_less (now s1) time
                    then answer from_user (Task_added descr datetime_str)
                           (add_job time (from_user, descr) 60 s1)
                    else answer from_user Added_without_reminder s1)
          in state_clear from_user s2)"

definition confirm_delete :: "int \<Rightarrow> int \<Rightarrow> bot_state \<Rightarrow> bot_state" where
  "confirm_delete task_id uid s = answer uid (Confirm_delete_prompt task_id) s"

definition delete_task_callback :: "int \<Rightarrow> int \<Rightarrow> bot_state \<Rightarrow> bot_state" where
  "delete_task_callback task_id uid s = answer uid Task_deleted (delete_task_db task_id s)"

definition cancel_callback :: "int \<Rightarrow> bot_state \<Rightarrow> bot_state" where
  "cancel_callback uid s = answer uid Action_cancelled s"

definition edit_task_callback :: "int \<Rightarrow> int \<Rightarrow> bot_state \<Rightarrow> bot_state" where
  "edit_task_callback task_id uid s = answer uid Ask_new_description (update_data uid task_id s)"

text \<open>\<open>if task_id:\<close> is false for a missing key and for the id \<open>0\<close>.\<close>

definition process_new_description :: "int \<Rightarrow> pystr \<Rightarrow> bot_state \<Rightarrow> bot_state" where
  "process_new_description uid text s =
     (case fsm_data s uid of
        None \<Rightarrow> s
      | Some task_id \<Rightarrow>
          if task_id \<noteq> 0
          then state_clear uid (answer uid Task_updated (update_task_db task_id text s))
          else s)"

section \<open>The dispatcher\<close>

text \<open>
  The dispatcher tries the handlers of an update type in the order of their registration
  and calls the first one whose filters hold; later handlers are not tried. The message
  handlers are \<open>start_handler\<close> (filter \<open>Command("start")\<close>), \<open>process_task_details\<close>
  (state \<open>waiting_for_details\<close>) and \<open>process_new_description\<close> (\<open>lambda message: True\<close>
  and the same state). The command filter belongs to the framework and is a parameter.
  A message is a text message: \<open>message.text\<close> is a string.
\<close>

datatype message_handler = Start_handler | Process_task_details | Process_new_description

definition message_handlers ::
    "(pystr \<Rightarrow> bool) \<Rightarrow> ((pystr \<Rightarrow> AddTaskState option \<Rightarrow> bool) \<times> message_handler) list" where
  "message_handlers command_start =
     [(\<lambda>text st. command_start text, Start_handler),
      (\<lambda>text st. st = Some waiting_for_details, Process_task_details),
      (\<lambda>text st. True \<and> st = Some waiting_for_details, Process_new_description)]"

definition selected ::
    "(pystr \<Rightarrow> bool) \<Rightarrow> pystr \<Rightarrow> AddTaskState option \<Rightarrow> message_handler option" where
  "selected command_start text st =
     map_option snd (find (\<lambda>(f, h). f text st) (message_handlers command_start))"

fun call_handler :: "digit_table \<Rightarrow> message_handler \<Rightarrow> int \<Rightarrow> pystr \<Rightarrow> bot_state \<Rightarrow> bot_state" where
  "call_handler ucd Start_handler uid text s = start_handler uid s"
| "call_handler ucd Process_task_details uid text s = process_task_details ucd uid text s"
| "call_handler ucd Process_new_description uid text s = process_new_description uid text s"

definition dp_message :: "digit_table \<Rightarrow> (pystr \<Rightarrow> bool) \<Rightarrow> int \<Rightarrow> pystr \<Rightarrow> bot_state \<Rightarrow> bot_state" where
  "dp_message ucd command_start uid text s =
     (case selected command_start text (fsm_state s uid) of
        None \<Rightarrow> s
      | Some h \<Rightarrow> call_handler ucd h uid text s)"

text \<open>
  Callback data are the strings the bot's own keyboards carry: the three menu entries,
  \<open>delete_<id>\<close>, \<open>confirm_delete_<id>\<close>, \<open>cancel\<close> and \<open>edit_<id>\<close>. The filters of
  the callback handlers are disjoint on them.
\<close>

datatype callback_data =
    Data_menu_add_task
  | Data_menu_view_tasks
  | Data_menu_help
  | Data_delete int
  | Data_confirm_delete int
  | Data_cancel
  | Data_edit int

fun dp_callback :: "int \<Rightarrow> callback_data \<Rightarrow> bot_state \<Rightarrow> bot_state" where
  "dp_callback uid Data_menu_add_task s = menu_add_task_handler uid s"
| "dp_callback uid Data_menu_view_tasks s = menu_view_tasks_handler uid s"
| "dp_callback uid Data_menu_help s = menu_help_handler uid s"
| "dp_callback uid (Data_delete task_id) s = confirm_delete task_id uid s"
| "dp_callback uid (Data_confirm_delete task_id) s = delete_task_callback task_id uid s"
| "dp_callback uid Data_cancel s = cancel_callback uid s"
| "dp_callback uid (Data_edit task_id) s = edit_task_callback task_id uid s"

text \<open>
  What can happen to the running bot: a user sends a text or presses a button, the clock
  moves on, the scheduler runs or drops a job, the reachability of a chat changes.
\<close>

datatype event =
    Message int pystr
  | Callback int callback_data
  | Clock datetime
  | Fire nat
  | Misfire nat
  | Network int "exc option"

text \<open>The clock only moves forward.\<close>

definition tick :: "datetime \<Rightarrow> bot_state \<Rightarrow> bot_state" where
  "tick t s = (if dt_less (now s) t then s\<lparr>now := t\<rparr> else s)"

fun step :: "digit_table \<Rightarrow> (pystr \<Rightarrow> bool) \<Rightarrow> event \<Rightarrow> bot_state \<Rightarrow> bot_state" where
  "step ucd cs (Message uid text) s = dp_message ucd cs uid text s"
| "step ucd cs (Callback uid d) s = dp_callback uid d s"
| "step ucd cs (Clock t) s = tick t s"
| "step ucd cs (Fire i) s = fire i s"
| "step ucd cs (Misfire i) s = misfire i s"
| "step ucd cs (Network uid e) s = s\<lparr>transport := (transport s)(uid := e)\<rparr>"

fun run :: "digit_table \<Rightarrow> (pystr \<Rightarrow> bool) \<Rightarrow> event list \<Rightarrow> bot_state \<Rightarrow> bot_state" where
  "run ucd cs [] s = s"
| "run ucd cs (e # es) s = run ucd cs es (step ucd cs e s)"

text \<open>The bot after \<open>main\<close> has started it at time \<open>t\<close> on an empty table.\<close>

definition startup :: "datetime \<Rightarrow> bot_state" where
  "startup t =
     \<lparr>tasks = [], jobs = [], fsm_state = (\<lambda>uid. None), fsm_data = (\<lambda>uid. None), sent = [],
      printed = [], now = t, transport = (\<lambda>uid. None)\<rparr>"



section \<open>The words of the specification\<close>

text \<open>
  The specification speaks of the white-space separated tokens of the request.
  \<open>tokens\<close> is that notion read from left to right (Python's \<open>str.split()\<close>): skip
  white space, take the run of other characters, go on with the rest. It is compared
  below with what \<open>rsplit\<close> hands to the handler.
\<close>

function tokens :: "pystr \<Rightarrow> pystr list" where
  "tokens s =
     (let s' = dropWhile isspace s in
      if s' = [] then [] else takeWhile nonspace s' # tokens (dropWhile nonspace s'))"
  by pat_completeness auto
termination
proof (relation "measure length")
  fix s s' :: pystr
  assume a: "s' = dropWhile isspace s" "s' \<noteq> []"
  from a(2) obtain c r where cr: "s' = c # r" by (cases s') simp_all
  have eq: "dropWhile isspace s = c # r" using a(1) cr by simp
  have "nonspace c" using hd_dropWhile[of isspace s] by (simp add: eq nonspace_def)
  then have "length (dropWhile nonspace s') \<le> length r"
    using cr by (simp add: length_dropWhile_le)
  moreover have "length s' \<le> length s" using a by (simp add: length_dropWhile_le)
  ultimately show "(dropWhile nonspace s', s) \<in> measure length" using cr by simp
qed simp

declare tokens.simps [simp del]

section \<open>Runs of the bot\<close>

text \<open>
  The bot starts on 2025-01-01 at 00:00 with an empty table; user 7 adds
  \<open>Buy milk 2025-03-01 09:30\<close>, which becomes row 1 and job 0. In \<open>fired\<close> the clock
  reaches the run date and the scheduler runs the job. In \<open>edited_then_fired\<close> the row's
  description is first updated to \<open>Buy bread\<close>; in \<open>deleted_then_fired\<close> the user first
  confirms the deletion of task 1. In \<open>readded\<close> the user confirms the deletion of task 1
  and sends the same request again. The requests of these runs are ASCII text, which
  never reaches the table of the digits beyond ASCII; the runs take the table with no
  entry, \<open>plain_table\<close>, and \<open>parse_buy_milk\<close> below gives the same parse for every
  table.
\<close>

definition plain_table :: digit_table where
  "plain_table c = None"

definition t_jan :: datetime where
  "t_jan = \<lparr>year = 2025, month = 1, day = 1, hour = 0, minute = 0, second = 0, microsecond = 0\<rparr>"

definition t_mar :: datetime where
  "t_mar = \<lparr>year = 2025, month = 3, day = 1, hour = 9, minute = 30, second = 0, microsecond = 0\<rparr>"

definition t_late :: datetime where
  "t_late = \<lparr>year = 2025, month = 3, day = 1, hour = 9, minute = 32, second = 0, microsecond = 0\<rparr>"

definition added :: bot_state where
  "added = process_task_details plain_table 7 (str ''Buy milk 2025-03-01 09:30'') (startup t_jan)"

definition fired :: bot_state where
  "fired = fire 0 (tick t_mar added)"

definition edited_then_fired :: bot_state where
  "edited_then_fired = fire 0 (tick t_mar (update_task_db 1 (str ''Buy bread'') added))"

definition deleted_then_fired :: bot_state where
  "deleted_then_fired = fire 0 (tick t_mar (delete_task_callback 1 7 added))"

definition readded :: bot_state where
  "readded = process_task_details plain_table 7 (str ''Buy milk 2025-03-01 09:30'')
               (delete_task_callback 1 7 added)"

section \<open>Tokens and \<open>rsplit\<close>\<close>

lemma tokens_Nil [simp]: "tokens [] = []"
  by (subst tokens.simps) simp

lemma tokens_blank: "dropWhile isspace s = [] \<Longrightarrow> tokens s = []"
  by (subst tokens.simps) simp

lemma tokens_nonblank:
  "dropWhile isspace s \<noteq> [] \<Longrightarrow>
     tokens s = takeWhile nonspace (dropWhile isspace s)
                # tokens (dropWhile nonspace (dropWhile isspace s))"
  by (subst tokens.simps) (simp add: Let_def)

lemma tokens_empty_iff: "tokens s = [] \<longleftrightarrow> dropWhile isspace s = []"
  using tokens_blank tokens_nonblank by (cases "dropWhile isspace s = []") auto

lemma rsplit_from_end_tokens:
  "length (tokens r) \<le> n \<Longrightarrow> rsplit_from_end n r = rev (map rev (tokens r))"
proof (induction n arbitrary: r)
  case 0
  then have "dropWhile isspace r = []" by (simp add: tokens_empty_iff)
  then show ?case by (simp add: tokens_blank)
next
  case (Suc n)
  show ?case
  proof (cases "dropWhile isspace r = []")
    case True
    then show ?thesis by (simp add: tokens_blank)
  next
    case False
    then have "length (tokens (dropWhile nonspace (dropWhile isspace r))) \<le> n"
      using Suc.prems by (simp add: tokens_nonblank)
    from Suc.IH[OF this] False show ?thesis
      by (simp add: tokens_nonblank Let_def)
  qed
qed

lemma rsplit_from_end_0_length: "length (rsplit_from_end 0 r) = min 1 (length (tokens r))"
  by (cases "dropWhile isspace r = []") (simp_all add: tokens_blank tokens_nonblank)

lemma rsplit_from_end_2:
  "length (rsplit_from_end 2 r) = min 3 (length (tokens r))
   \<and> last_two (rsplit_from_end 2 r) = rev (map rev (take 2 (tokens r)))"
proof (cases "dropWhile isspace r = []")
  case True
  then show ?thesis by (simp add: tokens_blank numeral_2_eq_2 last_two_def)
next
  case False
  define r1 where "r1 = dropWhile nonspace (dropWhile isspace r)"
  show ?thesis
  proof (cases "dropWhile isspace r1 = []")
    case True
    with False show ?thesis
      by (simp add: tokens_blank tokens_nonblank numeral_2_eq_2 last_two_def r1_def Let_def)
  next
    case r1: False
    with False show ?thesis
      using rsplit_from_end_0_length[of "dropWhile nonspace (dropWhile isspace r1)"]
      by (simp add: tokens_blank tokens_nonblank[of r] tokens_nonblank[of r1] numeral_2_eq_2 last_two_def r1_def[symmetric] Let_def)
  qed
qed


lemma tokens_all_space: "\<forall>c\<in>set w. isspace c \<Longrightarrow> tokens w = []"
  by (simp add: tokens_blank)

lemma tokens_append_space: "isspace c \<Longrightarrow> tokens (a @ c # b) = tokens a @ tokens b"
proof (induction a rule: tokens.induct)
  case (1 s)
  show ?case
  proof (cases "dropWhile isspace s = []")
    case True
    then have all: "\<forall>x\<in>set s. isspace x" by simp
    then have "dropWhile isspace (s @ c # b) = dropWhile isspace b"
      using 1(2) by (simp add: dropWhile_append)
    then have "tokens (s @ c # b) = tokens b"
      by (subst tokens.simps, subst (2) tokens.simps) simp
    then show ?thesis using True by (simp add: tokens_blank)
  next
    case False
    define s' where "s' = dropWhile isspace s"
    define rest where "rest = dropWhile nonspace s'"
    have ne: "s' \<noteq> []" using False by (simp add: s'_def)
    have IH: "tokens (rest @ c # b) = tokens rest @ tokens b"
      using 1(1)[OF s'_def ne] 1(2) by (simp add: rest_def)
    have ex: "\<exists>x\<in>set s. \<not> isspace x" using False by simp
    have d1: "dropWhile isspace (s @ c # b) = s' @ c # b"
      using ex by (auto simp: dropWhile_append1 s'_def)
    have sp: "\<not> nonspace c" using 1(2) by (simp add: nonspace_def)
    have t1: "takeWhile nonspace (s' @ c # b) = takeWhile nonspace s'"
    proof (cases "\<forall>x\<in>set s'. nonspace x")
      case True
      then have e1: "takeWhile nonspace (s' @ c # b) = s' @ takeWhile nonspace (c # b)"
        by (simp add: takeWhile_append2)
      have e2: "takeWhile nonspace (c # b) = []" using sp by simp
      have e3: "takeWhile nonspace s' = s'" using True by simp
      show ?thesis unfolding e1 e2 e3 by simp
    next
      case False
      then obtain x where "x \<in> set s'" "\<not> nonspace x" by blast
      then show ?thesis by (rule takeWhile_append1)
    qed
    have d2: "dropWhile nonspace (s' @ c # b) = rest @ c # b"
      using sp by (auto simp: dropWhile_append rest_def)
    have "tokens (s @ c # b) = takeWhile nonspace s' # tokens (rest @ c # b)"
      using tokens_nonblank[of "s @ c # b"] ne by (simp add: d1 t1 d2)
    moreover have "tokens s = takeWhile nonspace s' # tokens rest"
      using tokens_nonblank[OF False] by (simp add: s'_def rest_def)
    ultimately show ?thesis using IH by simp
  qed
qed

lemma tokens_word: "w \<noteq> [] \<Longrightarrow> \<forall>c\<in>set w. nonspace c \<Longrightarrow> tokens w = [w]"
proof -
  assume ne: "w \<noteq> []" and all: "\<forall>c\<in>set w. nonspace c"
  then have dw: "dropWhile isspace w = w"
    by (cases w) (simp_all add: nonspace_def)
  have tw: "takeWhile nonspace w = w" and d: "dropWhile nonspace w = []"
    using all by simp_all
  have "tokens w = takeWhile nonspace (dropWhile isspace w)
                   # tokens (dropWhile nonspace (dropWhile isspace w))"
    by (rule tokens_nonblank) (simp add: dw ne)
  also have "\<dots> = w # tokens []" by (simp only: dw tw d)
  finally show ?thesis by simp
qed

lemma tokens_rev: "tokens (rev s) = rev (map rev (tokens s))"
proof (induction s rule: tokens.induct)
  case (1 s)
  show ?case
  proof (cases "dropWhile isspace s = []")
    case True
    then have "dropWhile isspace (rev s) = []" by simp
    then show ?thesis using True by (simp add: tokens_blank)
  next
    case False
    define w where "w = takeWhile isspace s"
    define s' where "s' = dropWhile isspace s"
    define t where "t = takeWhile nonspace s'"
    define rest where "rest = dropWhile nonspace s'"
    have ne: "s' \<noteq> []" using False by (simp add: s'_def)
    have IH: "tokens (rev rest) = rev (map rev (tokens rest))"
      using 1[OF s'_def ne] by (simp add: rest_def)
    have s: "s = w @ t @ rest" by (simp add: w_def s'_def t_def rest_def)
    have tok: "tokens s = t # tokens rest"
      using tokens_nonblank[OF False] by (simp add: s'_def t_def rest_def)
    have hd: "nonspace (hd s')" using hd_dropWhile[of isspace s] False by (simp add: s'_def nonspace_def)
    have tne: "t \<noteq> []" using ne hd by (cases s') (simp_all add: t_def)
    have tall: "\<forall>c\<in>set t. nonspace c" by (auto simp: t_def dest: set_takeWhileD)
    have wall: "\<forall>c\<in>set w. isspace c" by (auto simp: w_def dest: set_takeWhileD)
    have trev: "tokens (rev t) = [rev t]" using tne tall by (intro tokens_word) simp_all
    have strip_w: "tokens (rev rest @ rev t @ rev w) = tokens (rev rest @ rev t)"
    proof (cases w rule: rev_cases)
      case Nil
      then show ?thesis by simp
    next
      case (snoc w' c)
      then have c: "isspace c" and w': "\<forall>x\<in>set w'. isspace x" using wall by simp_all
      have "tokens ((rev rest @ rev t) @ c # rev w') = tokens (rev rest @ rev t) @ tokens (rev w')"
        using c by (rule tokens_append_space)
      then show ?thesis using snoc w' by (simp add: tokens_all_space)
    qed
    have "tokens (rev rest @ rev t) = rev (map rev (tokens rest)) @ [rev t]"
    proof (cases rest)
      case Nil
      then show ?thesis using trev by simp
    next
      case (Cons c rest')
      have rne: "dropWhile nonspace s' = c # rest'" using Cons by (simp add: rest_def)
      have "\<not> nonspace (hd (dropWhile nonspace s'))" by (rule hd_dropWhile) (simp add: rne)
      then have c: "isspace c" by (simp add: rne nonspace_def)
      have a: "tokens (rev rest' @ c # rev t) = tokens (rev rest') @ [rev t]"
        using tokens_append_space[OF c, of "rev rest'" "rev t"] trev by simp
      have "tokens (rev rest' @ c # []) = tokens (rev rest') @ tokens []"
        using c by (rule tokens_append_space)
      then have "tokens (rev rest) = tokens (rev rest')" using Cons by (simp add: tokens_blank)
      then show ?thesis using a IH Cons by simp
    qed
    then show ?thesis using strip_w s tok by simp
  qed
qed

lemma rsplit_2_tokens:
  "length (rsplit text 2) = min 3 (length (tokens text))
   \<and> last_two (rsplit text 2) = last_two (tokens text)"
proof -
  have "rev (map rev (take 2 (rev (map rev (tokens text))))) = last_two (tokens text)"
    by (simp add: last_two_def take_rev take_map drop_map rev_map)
  then show ?thesis
    using rsplit_from_end_2[of "rev text"] by (simp add: rsplit_def tokens_rev)
qed

section \<open>Evaluating the parser\<close>

lemmas scan_defs = isdecimal_def decimal_def aval_def digit_in_def dval_def scan_spaces_def isspace_def nonspace_def
  days_in_month_def is_leap_def

lemmas text_defs = str_def rsplit_def numeral_2_eq_2 last_two_def slice_before_last_def
  strip_def lstrip_def rstrip_def

lemma parse_buy_milk:
  "parse_details ucd (str ''Buy milk 2025-03-01 09:30'')
     = Inr (str ''Buy milk'', str ''2025-03-01 09:30'', t_mar)"
  by (simp add: parse_details_def text_defs scan_defs strptime_def t_mar_def Let_def)

lemma parse_tomorrow: "parse_details ucd (str ''Buy milk tomorrow'') = Inl Wrong_datetime"
  by (simp add: parse_details_def text_defs scan_defs strptime_def Let_def)

lemma t_jan_before_t_mar: "dt_less t_jan t_mar"
  by (simp add: dt_less_def dt_key_def t_jan_def t_mar_def)

lemma dt_less_irrefl: "\<not> dt_less t t"
  by (simp add: dt_less_def)

lemma added_eq:
  "added =
     \<lparr>tasks = [\<lparr>id_col = 1, user_id = 7, description = str ''Buy milk'',
                scheduled_time = t_mar\<rparr>],
      jobs = [\<lparr>run_date = t_mar, args = (7, str ''Buy milk''), misfire_grace_time = 60\<rparr>],
      fsm_state = (\<lambda>uid. None), fsm_data = (\<lambda>uid. None),
      sent = [(7, Task_added (str ''Buy milk'') (str ''2025-03-01 09:30''))],
      printed = [], now = t_jan, transport = (\<lambda>uid. None)\<rparr>"
  by (simp add: added_def process_task_details_def parse_buy_milk startup_def add_task_db_def
      new_id_def add_job_def answer_def state_clear_def t_jan_before_t_mar fun_eq_iff)

text \<open>What the handler's parser returns, in the words of the specification.\<close>

lemma parse_details_tokens:
  "parse_details ucd text =
     (if length (tokens text) < 2 then Inl Wrong_format
      else case strptime ucd (join_space (last_two (tokens text))) of
             None \<Rightarrow> Inl Wrong_datetime
           | Some time \<Rightarrow>
               Inr (strip (slice_before_last text
                             (length (join_space (last_two (tokens text))))),
                    join_space (last_two (tokens text)), time))"
proof -
  have len: "length (rsplit text 2) < 2 \<longleftrightarrow> length (tokens text) < 2"
    using rsplit_2_tokens[of "text"] by (simp add: min_def split: if_splits)
  have two: "last_two (rsplit text 2) = last_two (tokens text)"
    using rsplit_2_tokens[of "text"] by simp
  show ?thesis by (simp add: parse_details_def Let_def len two)
qed

section \<open>The store\<close>

lemma delete_missing: "task_id \<notin> id_col ` set (tasks s) \<Longrightarrow> delete_task_db task_id s = s"
proof -
  assume a: "task_id \<notin> id_col ` set (tasks s)"
  have "filter (\<lambda>t. id_col t \<noteq> task_id) (tasks s) = tasks s"
    using a by (intro filter_True) auto
  then show ?thesis by (simp add: delete_task_db_def)
qed

lemma update_missing: "task_id \<notin> id_col ` set (tasks s) \<Longrightarrow> update_task_db task_id d s = s"
proof -
  assume a: "task_id \<notin> id_col ` set (tasks s)"
  have "map (\<lambda>t. if id_col t = task_id then t\<lparr>description := d\<rparr> else t) (tasks s) = tasks s"
    using a by (intro map_idI) auto
  then show ?thesis by (simp add: update_task_db_def)
qed

text \<open>
  C7. For a task id that no row of the store has, \<open>delete_task_db\<close> and
  \<open>update_task_db\<close> return normally and leave the whole state, so every row, as it
  was; neither reports anything, the delete handler answers as for any other id, and
  deleting twice is the same as deleting once.
\<close>

theorem missing_id_is_noop:
  assumes "task_id \<notin> id_col ` set (tasks s)"
  shows "delete_task_db task_id s = s
       \<and> update_task_db task_id d s = s
       \<and> delete_task_callback task_id uid s = s\<lparr>sent := sent s @ [(uid, Task_deleted)]\<rparr>
       \<and> delete_task_db task_id (delete_task_db task_id s) = delete_task_db task_id s"
  using assms by (simp add: delete_missing update_missing delete_task_callback_def answer_def)

theorem missing_id_is_noop_witness:
  "5 \<notin> id_col ` set (tasks added)
   \<and> delete_task_db 5 added = added
   \<and> update_task_db 5 (str ''Buy bread'') added = added
   \<and> tasks (delete_task_callback 5 7 added) = tasks added"
proof -
  have h: "5 \<notin> id_col ` set (tasks added)" by (simp add: added_eq)
  show ?thesis using h missing_id_is_noop[OF h, of "str ''Buy bread''" 7] by simp
qed

section \<open>What the handlers do to the state\<close>

lemmas fsm_defs = answer_def set_state_def update_data_def state_clear_def

lemma process_task_details_failed:
  "parse_details ucd text = Inl e \<Longrightarrow>
     process_task_details ucd uid text s =
       answer uid (case e of Wrong_format \<Rightarrow> Bad_format | Wrong_datetime \<Rightarrow> Bad_datetime) s"
  by (cases e) (simp_all add: process_task_details_def)

lemma process_task_details_parsed:
  "parse_details ucd text = Inr (descr, datetime_str, time) \<Longrightarrow>
     process_task_details ucd uid text s =
       (if dt_less (now s) time
        then state_clear uid (answer uid (Task_added descr datetime_str)
               (add_job time (uid, descr) 60 (add_task_db uid descr time s)))
        else state_clear uid (answer uid Added_without_reminder (add_task_db uid descr time s)))"
  by (simp add: process_task_details_def Let_def add_task_db_def)

lemma fold_answer_fields:
  "tasks (fold (\<lambda>(idx, t). answer uid (f idx t)) xs s) = tasks s
   \<and> jobs (fold (\<lambda>(idx, t). answer uid (f idx t)) xs s) = jobs s"
  by (induction xs arbitrary: s) (auto simp: answer_def)

lemma menu_view_tasks_fields:
  "tasks (menu_view_tasks_handler uid s) = tasks s \<and> jobs (menu_view_tasks_handler uid s) = jobs s"
  by (simp add: menu_view_tasks_handler_def Let_def answer_def fold_answer_fields)

lemma tokens_example_tomorrow:
  "tokens (str ''Buy milk tomorrow'') = [str ''Buy'', str ''milk'', str ''tomorrow'']"
  by (simp add: tokens_nonblank tokens_blank str_def isspace_def nonspace_def)

lemma tokens_example_two_spaces:
  "tokens (str ''Buy milk 2025-03-01  09:30'')
     = [str ''Buy'', str ''milk'', str ''2025-03-01'', str ''09:30'']"
  by (simp add: tokens_nonblank tokens_blank str_def isspace_def nonspace_def)

lemma tokens_example_bare:
  "tokens (str ''2025-03-01 09:30'') = [str ''2025-03-01'', str ''09:30'']"
  by (simp add: tokens_nonblank tokens_blank str_def isspace_def nonspace_def)

lemma strptime_example: "strptime ucd (str ''2025-03-01 09:30'') = Some t_mar"
  by (simp add: strptime_def str_def scan_defs t_mar_def)

lemma strptime_tomorrow: "strptime ucd (str ''milk tomorrow'') = None"
  by (simp add: strptime_def str_def scan_defs)

section \<open>A failed delivery\<close>

text \<open>
  C8. When the scheduler runs a due job and \<open>bot.send_message\<close> raises an
  \<open>Exception\<close>, \<open>send_reminder\<close> returns normally: the error is printed and
  nothing leaves the function. After the firing the state is the one before it with
  that job taken out of the scheduler and the error printed; the table, the other jobs
  in their order, the messages sent, the clock and the FSM storage are as they were.
\<close>

theorem delivery_error_is_caught:
  assumes "due i s" and "transport s (fst (args (jobs s ! i))) = Some (Exception e)"
  shows "send_reminder (fst (args (jobs s ! i))) (snd (args (jobs s ! i))) (remove_job i s)
           = Inr ((remove_job i s)\<lparr>printed := printed s @ [Exception e]\<rparr>)
         \<and> fire i s = s\<lparr>jobs := take i (jobs s) @ drop (Suc i) (jobs s),
                         printed := printed s @ [Exception e]\<rparr>"
  using assms by (simp add: fire_def send_reminder_def remove_job_def)

theorem delivery_error_is_caught_witness:
  "due 0 ((tick t_mar added)\<lparr>transport := (\<lambda>uid. Some (Exception (str ''blocked'')))\<rparr>)
   \<and> fire 0 ((tick t_mar added)\<lparr>transport := (\<lambda>uid. Some (Exception (str ''blocked'')))\<rparr>)
       = (tick t_mar added)\<lparr>transport := (\<lambda>uid. Some (Exception (str ''blocked''))),
                             jobs := [], printed := [Exception (str ''blocked'')]\<rparr>"
proof -
  let ?s = "(tick t_mar added)\<lparr>transport := (\<lambda>uid. Some (Exception (str ''blocked'')))\<rparr>"
  have h1: "due 0 ?s"
    by (simp add: due_def tick_def added_eq t_jan_before_t_mar dt_less_irrefl)
  have h2: "transport ?s (fst (args (jobs ?s ! 0))) = Some (Exception (str ''blocked''))"
    by simp
  show ?thesis
    using h1 delivery_error_is_caught[OF h1 h2]
    by (simp add: tick_def added_eq t_jan_before_t_mar)
qed

section \<open>Requests that do not parse\<close>

text \<open>
  A year in fullwidth digits is a year for \<open>strptime\<close> once the table knows these
  digits: the request \<open>Buy milk\<close>, the year 2025 in the code points U+FF12, U+FF10,
  U+FF12, U+FF15, and \<open>-03-01 09:30\<close> parses like its ASCII form.
\<close>

lemma fullwidth_year_is_parsed:
  assumes "ucd 65296 = Some 0" and "ucd 65298 = Some 2" and "ucd 65301 = Some 5"
  shows "parse_details ucd (str ''Buy milk '' @ [65298, 65296, 65298, 65301] @ str ''-03-01 09:30'')
           = Inr (str ''Buy milk'',
                  [65298, 65296, 65298, 65301] @ str ''-03-01 09:30'', t_mar)"
  using assms
  by (simp add: parse_details_def text_defs scan_defs strptime_def t_mar_def Let_def)

text \<open>
  C5. When the request has fewer than two tokens, or its last two tokens joined by a
  space are not a timestamp for \<open>strptime\<close>, the handler answers with the error text
  for that case and changes nothing else: no row is stored, no job is added, and the
  FSM storage stays as it is. This holds whatever the table of the digits beyond ASCII
  is.
\<close>

theorem parse_failure_changes_nothing:
  assumes "length (tokens text) < 2 \<or> strptime ucd (join_space (last_two (tokens text))) = None"
  shows "process_task_details ucd uid text s =
           s\<lparr>sent := sent s @
                [(uid, if length (tokens text) < 2 then Bad_format else Bad_datetime)]\<rparr>
         \<and> tasks (process_task_details ucd uid text s) = tasks s
         \<and> jobs (process_task_details ucd uid text s) = jobs s"
proof -
  have "parse_details ucd text =
          Inl (if length (tokens text) < 2 then Wrong_format else Wrong_datetime)"
    using assms by (auto simp: parse_details_tokens)
  from process_task_details_failed[OF this] show ?thesis
    by (simp add: answer_def)
qed

theorem parse_failure_changes_nothing_witness:
  "(length (tokens (str ''Buy milk tomorrow'')) < 2
      \<or> strptime plain_table (join_space (last_two (tokens (str ''Buy milk tomorrow'')))) = None)
   \<and> process_task_details plain_table 7 (str ''Buy milk tomorrow'') added
       = added\<lparr>sent := sent added @ [(7, Bad_datetime)]\<rparr>"
proof -
  have j: "join_space (last_two (tokens (str ''Buy milk tomorrow''))) = str ''milk tomorrow''"
    unfolding tokens_example_tomorrow by (simp add: last_two_def str_def)
  have h: "length (tokens (str ''Buy milk tomorrow'')) < 2
      \<or> strptime plain_table (join_space (last_two (tokens (str ''Buy milk tomorrow'')))) = None"
    by (simp add: j strptime_tomorrow)
  show ?thesis
    using h parse_failure_changes_nothing[OF h, where uid=7 and s=added]
    by (simp add: tokens_example_tomorrow)
qed

section \<open>The description that is stored\<close>

text \<open>
  C4. The request \<open>Buy milk 2025-03-01  09:30\<close>, with two spaces between date and
  time, has the tokens \<open>Buy\<close>, \<open>milk\<close>, \<open>2025-03-01\<close>, \<open>09:30\<close>; what precedes
  the last two is \<open>Buy milk\<close>. The handler cuts \<open>len(datetime_str)\<close> characters off
  the end of the text, and \<open>datetime_str\<close> has one space where the text has two, so
  the description it keeps is \<open>Buy milk 2\<close>. With one space the description is
  \<open>Buy milk\<close> and the time 2025-03-01 09:30.
\<close>

theorem description_keeps_part_of_the_date:
  "tokens (str ''Buy milk 2025-03-01  09:30'')
     = [str ''Buy'', str ''milk'', str ''2025-03-01'', str ''09:30'']
   \<and> parse_details ucd (str ''Buy milk 2025-03-01  09:30'')
     = Inr (str ''Buy milk 2'', str ''2025-03-01 09:30'', t_mar)
   \<and> parse_details ucd (str ''Buy milk 2025-03-01 09:30'')
     = Inr (str ''Buy milk'', str ''2025-03-01 09:30'', t_mar)"
proof -
  have "parse_details ucd (str ''Buy milk 2025-03-01  09:30'')
     = Inr (str ''Buy milk 2'', str ''2025-03-01 09:30'', t_mar)"
    by (simp add: parse_details_def text_defs scan_defs strptime_def t_mar_def Let_def)
  then show ?thesis by (simp add: tokens_example_two_spaces parse_buy_milk)
qed

text \<open>
  Where the slice is right: a request that is a timestamp for \<open>strptime\<close> and consists
  of its two tokens with one space between them is stored with the empty description.
\<close>

lemma single_space_timestamp_is_stored_empty:
  assumes "length (tokens text) = 2" and "join_space (tokens text) = text"
    and "strptime ucd text = Some time"
  shows "parse_details ucd text = Inr ([], text, time)
       \<and> tasks (process_task_details ucd uid text s) =
           tasks s @ [\<lparr>id_col = new_id (tasks s), user_id = uid, description = [],
                       scheduled_time = time\<rparr>]
       \<and> jobs (process_task_details ucd uid text s) =
           (if dt_less (now s) time
            then jobs s @ [\<lparr>run_date = time, args = (uid, []), misfire_grace_time = 60\<rparr>]
            else jobs s)
       \<and> sent (process_task_details ucd uid text s) =
           sent s @ [(uid, if dt_less (now s) time then Task_added [] text
                           else Added_without_reminder)]"
proof -
  have l2: "last_two (tokens text) = tokens text" using assms(1) by (simp add: last_two_def)
  have ne: "text \<noteq> []" using assms(1) by auto
  have p: "parse_details ucd text = Inr ([], text, time)"
    using assms ne by (simp add: parse_details_tokens l2 slice_before_last_def strip_def
        lstrip_def rstrip_def)
  show ?thesis
    by (simp add: p process_task_details_parsed[OF p] fsm_defs add_job_def add_task_db_def)
qed

text \<open>
  C10. The request \<open>2025-03-01  09:30\<close>, a date and a time with two spaces between
  them, is a timestamp for \<open>strptime\<close> and has exactly two tokens and nothing else. The
  handler raises no validation error and, the time being after the clock's, adds the
  job; but the row it stores has the description \<open>2\<close>, not the empty one: the slice
  that cuts \<open>len(datetime_str)\<close> characters off the end leaves the first character of
  the date, as in C4.
\<close>

theorem bare_timestamp_keeps_a_digit:
  "tokens (str ''2025-03-01  09:30'') = [str ''2025-03-01'', str ''09:30'']
   \<and> strptime ucd (str ''2025-03-01  09:30'') = Some t_mar
   \<and> parse_details ucd (str ''2025-03-01  09:30'')
       = Inr (str ''2'', str ''2025-03-01 09:30'', t_mar)
   \<and> tasks (process_task_details ucd 7 (str ''2025-03-01  09:30'') (startup t_jan))
       = [\<lparr>id_col = 1, user_id = 7, description = str ''2'', scheduled_time = t_mar\<rparr>]
   \<and> jobs (process_task_details ucd 7 (str ''2025-03-01  09:30'') (startup t_jan))
       = [\<lparr>run_date = t_mar, args = (7, str ''2''), misfire_grace_time = 60\<rparr>]
   \<and> sent (process_task_details ucd 7 (str ''2025-03-01  09:30'') (startup t_jan))
       = [(7, Task_added (str ''2'') (str ''2025-03-01 09:30''))]"
proof -
  have t: "tokens (str ''2025-03-01  09:30'') = [str ''2025-03-01'', str ''09:30'']"
    by (simp add: tokens_nonblank tokens_blank str_def isspace_def nonspace_def)
  have s: "strptime ucd (str ''2025-03-01  09:30'') = Some t_mar"
    by (simp add: strptime_def str_def scan_defs t_mar_def)
  have p: "parse_details ucd (str ''2025-03-01  09:30'')
       = Inr (str ''2'', str ''2025-03-01 09:30'', t_mar)"
    by (simp add: parse_details_def text_defs scan_defs strptime_def t_mar_def Let_def)
  have now: "now (startup t_jan) = t_jan" by (simp add: startup_def)
  show ?thesis
    by (simp add: t s p process_task_details_parsed[OF p] now t_jan_before_t_mar startup_def
        fsm_defs add_job_def add_task_db_def new_id_def)
qed

section \<open>The list view\<close>



lemma fold_answer_other_fields:
  "now (fold (\<lambda>(idx, t). answer uid (f idx t)) xs s) = now s
   \<and> transport (fold (\<lambda>(idx, t). answer uid (f idx t)) xs s) = transport s
   \<and> fsm_state (fold (\<lambda>(idx, t). answer uid (f idx t)) xs s) = fsm_state s"
  by (induction xs arbitrary: s) (auto simp: answer_def)

lemma menu_view_tasks_other_fields:
  "now (menu_view_tasks_handler uid s) = now s
   \<and> transport (menu_view_tasks_handler uid s) = transport s
   \<and> fsm_state (menu_view_tasks_handler uid s) = fsm_state s"
  by (simp add: menu_view_tasks_handler_def Let_def answer_def fold_answer_other_fields)

section \<open>Reminders come from jobs\<close>




lemma dp_message_cases:
  "dp_message ucd cs uid text s =
     (if cs text then start_handler uid s
      else if fsm_state s uid = Some waiting_for_details
           then process_task_details ucd uid text s
      else s)"
  by (simp add: dp_message_def selected_def message_handlers_def)






section \<open>A request whose time has passed\<close>



section \<open>Fresh keys\<close>

lemma fold_max_ge: "(a::int) \<le> fold max xs a"
  by (induction xs arbitrary: a) (auto intro: order_trans[OF max.cobounded2])

lemma fold_max_mem: "x \<in> set xs \<Longrightarrow> (x::int) \<le> fold max xs a"
proof (induction xs arbitrary: a)
  case Nil
  then show ?case by simp
next
  case (Cons y ys)
  show ?case
  proof (cases "x = y")
    case True
    have "x \<le> max y a" using True by simp
    also have "\<dots> \<le> fold max ys (max y a)" by (rule fold_max_ge)
    finally show ?thesis by simp
  next
    case False
    then have "x \<in> set ys" using Cons.prems by simp
    from Cons.IH[OF this] show ?thesis by simp
  qed
qed

lemma new_id_fresh: "r \<in> set ts \<Longrightarrow> id_col r < new_id ts"
  using fold_max_mem[of "id_col r" "map id_col ts" 0] by (simp add: new_id_def)

section \<open>Edits and the reminder\<close>

lemma tick_fields:
  "tasks (tick t s) = tasks s \<and> jobs (tick t s) = jobs s \<and> sent (tick t s) = sent s
   \<and> transport (tick t s) = transport s \<and> printed (tick t s) = printed s"
  by (simp add: tick_def)

lemma fire_delivers:
  assumes "i < length (jobs s)" "\<not> dt_less (now s) (run_date (jobs s ! i))"
    "transport s (fst (args (jobs s ! i))) = None"
  shows "fire i s = s\<lparr>jobs := take i (jobs s) @ drop (Suc i) (jobs s),
                       sent := sent s @ [(fst (args (jobs s ! i)),
                                          Reminder_text (snd (args (jobs s ! i))))]\<rparr>"
  using assms by (simp add: fire_def due_def send_reminder_def remove_job_def)

text \<open>
  C1, as stated, fails: user 7 adds \<open>Buy milk\<close> for 2025-03-01 09:30 on
  2025-01-01, the row's description is updated to \<open>Buy bread\<close>, and the reminder sent
  at the run date still says \<open>Buy milk\<close> while the store holds \<open>Buy bread\<close>.
\<close>

theorem edit_then_fire_counterexample:
  "map description (tasks edited_then_fired) = [str ''Buy bread'']
   \<and> sent edited_then_fired =
       [(7, Task_added (str ''Buy milk'') (str ''2025-03-01 09:30'')),
        (7, Reminder_text (str ''Buy milk''))]
   \<and> str ''Buy milk'' \<noteq> str ''Buy bread''"
  by (simp add: edited_then_fired_def added_eq update_task_db_def tick_def t_jan_before_t_mar
      fire_def due_def dt_less_irrefl send_reminder_def remove_job_def str_def)

text \<open>
  C1, amended. For a task added with a time after the clock's, the job holds the user's
  id and the description parsed from the request; when the job fires, the reminder
  carries that description, whatever \<open>update_task_db\<close> has written to any row in
  between, the task's own row included.
\<close>

theorem reminder_carries_description_of_schedule_time:
  assumes "parse_details ucd text = Inr (descr, datetime_str, time)"
    and "dt_less (now s) time" and "transport s uid = None"
  shows "jobs (process_task_details ucd uid text s) =
           jobs s @ [\<lparr>run_date = time, args = (uid, descr), misfire_grace_time = 60\<rparr>]
       \<and> sent (fire (length (jobs s))
                (tick time (update_task_db task_id new_description
                   (process_task_details ucd uid text s)))) =
           sent s @ [(uid, Task_added descr datetime_str), (uid, Reminder_text descr)]
       \<and> map description
           (filter (\<lambda>r. id_col r = new_id (tasks s))
              (tasks (update_task_db (new_id (tasks s)) new_description
                 (process_task_details ucd uid text s)))) = [new_description]"
proof -
  let ?p = "process_task_details ucd uid text s"
  let ?job = "\<lparr>run_date = time, args = (uid, descr), misfire_grace_time = 60\<rparr>"
  let ?u = "tick time (update_task_db task_id new_description ?p)"
  have p: "?p = state_clear uid (answer uid (Task_added descr datetime_str)
                  (add_job time (uid, descr) 60 (add_task_db uid descr time s)))"
    using assms by (simp add: process_task_details_parsed)
  have j: "jobs ?p = jobs s @ [?job]"
    by (simp add: p state_clear_def answer_def add_job_def add_task_db_def)
  have u: "jobs ?u = jobs s @ [?job]" "now ?u = time" "transport ?u = transport s"
    "sent ?u = sent s @ [(uid, Task_added descr datetime_str)]"
    using assms(2)
    by (simp_all add: tick_def update_task_db_def p state_clear_def answer_def add_job_def
        add_task_db_def)
  have f: "fire (length (jobs s)) ?u =
             ?u\<lparr>jobs := take (length (jobs s)) (jobs ?u) @ drop (Suc (length (jobs s))) (jobs ?u),
                 sent := sent ?u @ [(fst (args (jobs ?u ! length (jobs s))),
                    Reminder_text (snd (args (jobs ?u ! length (jobs s)))))]\<rparr>"
    by (rule fire_delivers) (simp_all add: u dt_less_irrefl assms(3))
  have s: "sent (fire (length (jobs s)) ?u) =
             sent s @ [(uid, Task_added descr datetime_str), (uid, Reminder_text descr)]"
    by (subst f) (simp add: u)
  have t: "map description
           (filter (\<lambda>r. id_col r = new_id (tasks s))
              (tasks (update_task_db (new_id (tasks s)) new_description ?p))) = [new_description]"
  proof -
    have "filter (\<lambda>r. id_col r = new_id (tasks s))
            (map (\<lambda>t. if id_col t = new_id (tasks s) then t\<lparr>description := new_description\<rparr>
                      else t) (tasks s)) = []"
      by (auto simp: filter_empty_conv dest: new_id_fresh)
    then show ?thesis
      by (simp add: p state_clear_def answer_def add_job_def add_task_db_def update_task_db_def)
  qed
  show ?thesis using j s t by simp
qed

theorem reminder_carries_description_of_schedule_time_witness:
  "parse_details plain_table (str ''Buy milk 2025-03-01 09:30'')
     = Inr (str ''Buy milk'', str ''2025-03-01 09:30'', t_mar)
   \<and> dt_less (now (startup t_jan)) t_mar \<and> transport (startup t_jan) 7 = None
   \<and> sent (fire 0 (tick t_mar (update_task_db 1 (str ''Buy bread'')
        (process_task_details plain_table 7 (str ''Buy milk 2025-03-01 09:30'') (startup t_jan)))))
       = [(7, Task_added (str ''Buy milk'') (str ''2025-03-01 09:30'')),
          (7, Reminder_text (str ''Buy milk''))]"
proof -
  have h2: "dt_less (now (startup t_jan)) t_mar" by (simp add: startup_def t_jan_before_t_mar)
  have h3: "transport (startup t_jan) 7 = None" by (simp add: startup_def)
  have g: "jobs (startup t_jan) = []" "sent (startup t_jan) = []" by (simp_all add: startup_def)
  show ?thesis
    using parse_buy_milk h2 h3
      reminder_carries_description_of_schedule_time[OF parse_buy_milk[of plain_table] h2 h3,
        where task_id=1 and new_description="str ''Buy bread''"]
    by (simp add: g)
qed

section \<open>Deleting a task\<close>

text \<open>
  C2, as stated, fails: user 7 adds \<open>Buy milk\<close> for 2025-03-01 09:30, confirms the
  deletion of task 1, and at the run date the reminder is sent all the same, the table
  being empty. The job has then left the scheduler.
\<close>

theorem delete_then_fire_counterexample:
  "tasks deleted_then_fired = []
   \<and> sent deleted_then_fired =
       [(7, Task_added (str ''Buy milk'') (str ''2025-03-01 09:30'')),
        (7, Task_deleted),
        (7, Reminder_text (str ''Buy milk''))]
   \<and> jobs deleted_then_fired = []"
  by (simp add: deleted_then_fired_def added_eq delete_task_callback_def delete_task_db_def
      answer_def tick_def t_jan_before_t_mar fire_def due_def dt_less_irrefl send_reminder_def
      remove_job_def)

text \<open>
  C2, amended. Deleting a task removes its row and leaves the scheduler's jobs as they
  are. A job that is due then fires as if nothing had been deleted: its reminder is
  delivered, and the job leaves the scheduler, so that it is delivered once. The state
  after the firing is the state before the deletion with the rows of that id removed,
  the job taken out, and the two messages sent.
\<close>

theorem delete_leaves_the_scheduler_alone:
  assumes "due i s" and "transport s (fst (args (jobs s ! i))) = None"
  shows "jobs (delete_task_callback task_id uid s) = jobs s
       \<and> task_id \<notin> id_col ` set (tasks (delete_task_callback task_id uid s))
       \<and> sent (fire i (delete_task_callback task_id uid s)) =
           sent s @ [(uid, Task_deleted),
                     (fst (args (jobs s ! i)), Reminder_text (snd (args (jobs s ! i))))]
       \<and> jobs (fire i (delete_task_callback task_id uid s)) =
           take i (jobs s) @ drop (Suc i) (jobs s)
       \<and> fire i (delete_task_callback task_id uid s) =
           s\<lparr>tasks := filter (\<lambda>t. id_col t \<noteq> task_id) (tasks s),
             jobs := take i (jobs s) @ drop (Suc i) (jobs s),
             sent := sent s @ [(uid, Task_deleted),
                     (fst (args (jobs s ! i)), Reminder_text (snd (args (jobs s ! i))))]\<rparr>"
  using assms
  by (auto simp: delete_task_callback_def delete_task_db_def answer_def fire_def due_def
      send_reminder_def remove_job_def)

theorem delete_leaves_the_scheduler_alone_witness:
  "due 0 (tick t_mar added) \<and> transport (tick t_mar added) (fst (args (jobs (tick t_mar added) ! 0))) = None
   \<and> jobs (delete_task_callback 1 7 (tick t_mar added)) = jobs (tick t_mar added)
   \<and> tasks (delete_task_callback 1 7 (tick t_mar added)) = []
   \<and> sent (fire 0 (delete_task_callback 1 7 (tick t_mar added))) =
       [(7, Task_added (str ''Buy milk'') (str ''2025-03-01 09:30'')),
        (7, Task_deleted),
        (7, Reminder_text (str ''Buy milk''))]
   \<and> jobs (fire 0 (delete_task_callback 1 7 (tick t_mar added))) = []
   \<and> fire 0 (fire 0 (delete_task_callback 1 7 (tick t_mar added)))
       = fire 0 (delete_task_callback 1 7 (tick t_mar added))"
proof -
  have e: "tick t_mar added = added\<lparr>now := t_mar\<rparr>"
    by (simp add: tick_def added_eq t_jan_before_t_mar)
  have h1: "due 0 (tick t_mar added)"
    unfolding e by (simp add: due_def added_eq dt_less_irrefl)
  have h2: "transport (tick t_mar added) (fst (args (jobs (tick t_mar added) ! 0))) = None"
    unfolding e by (simp add: added_eq)
  have g: "sent (tick t_mar added) = [(7, Task_added (str ''Buy milk'') (str ''2025-03-01 09:30''))]"
    "jobs (tick t_mar added) =
       [\<lparr>run_date = t_mar, args = (7, str ''Buy milk''), misfire_grace_time = 60\<rparr>]"
    "tasks (delete_task_callback 1 7 (tick t_mar added)) = []"
    unfolding e by (simp_all add: added_eq delete_task_callback_def delete_task_db_def answer_def)
  have j: "jobs (fire 0 (delete_task_callback 1 7 (tick t_mar added))) = []"
    using delete_leaves_the_scheduler_alone[OF h1 h2, of 1 7] by (simp add: g)
  have again: "fire 0 (fire 0 (delete_task_callback 1 7 (tick t_mar added)))
       = fire 0 (delete_task_callback 1 7 (tick t_mar added))"
    by (subst fire_def) (simp add: due_def j)
  show ?thesis
    using h1 h2 delete_leaves_the_scheduler_alone[OF h1 h2, of 1 7] again
    by (simp add: g)
qed

section \<open>Which steps touch the scheduler and the table\<close>

lemma selected_cases:
  "selected cs text st =
     (if cs text then Some Start_handler
      else if st = Some waiting_for_details then Some Process_task_details
      else None)"
  by (simp add: selected_def message_handlers_def)

lemma process_new_description_not_selected:
  "selected cs text st \<noteq> Some Process_new_description"
  by (simp add: selected_cases)

lemma dp_callback_jobs: "jobs (dp_callback uid d s) = jobs s"
  by (cases d)
    (simp_all add: menu_add_task_handler_def menu_view_tasks_fields menu_help_handler_def
      confirm_delete_def delete_task_callback_def delete_task_db_def cancel_callback_def
      edit_task_callback_def answer_def set_state_def update_data_def)

lemma dp_callback_tasks:
  "tasks (dp_callback uid d s) =
     (case d of Data_confirm_delete task_id \<Rightarrow> filter (\<lambda>r. id_col r \<noteq> task_id) (tasks s)
      | _ \<Rightarrow> tasks s)"
  by (cases d)
    (simp_all add: menu_add_task_handler_def menu_view_tasks_fields menu_help_handler_def
      confirm_delete_def delete_task_callback_def delete_task_db_def cancel_callback_def
      edit_task_callback_def answer_def set_state_def update_data_def)

lemma fire_jobs_tasks:
  "tasks (fire i s) = tasks s
   \<and> (jobs (fire i s) = jobs s
      \<or> i < length (jobs s) \<and> jobs (fire i s) = take i (jobs s) @ drop (Suc i) (jobs s))"
  by (auto simp: fire_def due_def send_reminder_def remove_job_def
      split: option.splits exc.splits)

lemma misfire_jobs_tasks:
  "tasks (misfire i s) = tasks s
   \<and> (jobs (misfire i s) = jobs s
      \<or> i < length (jobs s) \<and> jobs (misfire i s) = take i (jobs s) @ drop (Suc i) (jobs s))"
  by (auto simp: misfire_def remove_job_def)

lemma process_task_details_tasks_jobs:
  "(case parse_details ucd m of
      Inl e \<Rightarrow> tasks (process_task_details ucd uid m s) = tasks s
               \<and> jobs (process_task_details ucd uid m s) = jobs s
    | Inr (descr, datetime_str, time) \<Rightarrow>
        tasks (process_task_details ucd uid m s) =
          tasks s @ [\<lparr>id_col = new_id (tasks s), user_id = uid, description = descr,
                      scheduled_time = time\<rparr>]
        \<and> jobs (process_task_details ucd uid m s) =
            (if dt_less (now s) time
             then jobs s @ [\<lparr>run_date = time, args = (uid, descr), misfire_grace_time = 60\<rparr>]
             else jobs s))"
proof (cases "parse_details ucd m")
  case (Inl e)
  then show ?thesis by (simp add: process_task_details_failed answer_def)
next
  case (Inr p)
  obtain descr datetime_str time where p: "p = (descr, datetime_str, time)" by (cases p)
  show ?thesis using Inr
    by (simp add: p process_task_details_parsed state_clear_def answer_def add_job_def
        add_task_db_def)
qed

lemma step_effect:
  "jobs (step ucd cs e s) = jobs s \<and> (tasks (step ucd cs e s) = tasks s
       \<or> (\<exists>task_id. tasks (step ucd cs e s) = filter (\<lambda>r. id_col r \<noteq> task_id) (tasks s))
       \<or> (\<exists>uid text descr datetime_str time.
            e = Message uid text
            \<and> parse_details ucd text = Inr (descr, datetime_str, time)
            \<and> \<not> dt_less (now s) time
            \<and> tasks (step ucd cs e s) =
                tasks s @ [\<lparr>id_col = new_id (tasks s), user_id = uid, description = descr,
                            scheduled_time = time\<rparr>]))
   \<or> (\<exists>i. i < length (jobs s)
        \<and> jobs (step ucd cs e s) = take i (jobs s) @ drop (Suc i) (jobs s)
        \<and> tasks (step ucd cs e s) = tasks s)
   \<or> (\<exists>uid text descr datetime_str time.
        e = Message uid text
        \<and> parse_details ucd text = Inr (descr, datetime_str, time)
        \<and> dt_less (now s) time
        \<and> tasks (step ucd cs e s) =
            tasks s @ [\<lparr>id_col = new_id (tasks s), user_id = uid, description = descr,
                        scheduled_time = time\<rparr>]
        \<and> jobs (step ucd cs e s) =
            jobs s @ [\<lparr>run_date = time, args = (uid, descr), misfire_grace_time = 60\<rparr>])"
proof (cases e)
  case (Message uid msg)
  show ?thesis
  proof (cases "\<not> cs msg \<and> fsm_state s uid = Some waiting_for_details")
    case False
    then have "step ucd cs e s = s \<or> step ucd cs e s = start_handler uid s"
      using Message by (auto simp: dp_message_cases)
    then show ?thesis by (auto simp: start_handler_def answer_def)
  next
    case True
    then have st: "dp_message ucd cs uid msg s = process_task_details ucd uid msg s"
      by (simp add: dp_message_cases)
    show ?thesis
    proof (cases "parse_details ucd msg")
      case (Inl err)
      then show ?thesis using process_task_details_tasks_jobs[where m=msg and uid=uid and s=s and ucd=ucd]
        by (simp add: Message st)
    next
      case (Inr p)
      obtain descr datetime_str time where p: "p = (descr, datetime_str, time)" by (cases p)
      show ?thesis
      proof (cases "dt_less (now s) time")
        case True
        then show ?thesis
          using process_task_details_tasks_jobs[where m=msg and uid=uid and s=s and ucd=ucd] Inr Message
          by (simp add: Message st p)
      next
        case False
        then show ?thesis
          using process_task_details_tasks_jobs[where m=msg and uid=uid and s=s and ucd=ucd] Inr Message
          by (simp add: Message st p)
      qed
    qed
  qed
next
  case (Callback uid d)
  have j: "jobs (step ucd cs e s) = jobs s" using Callback by (simp add: dp_callback_jobs)
  have "tasks (step ucd cs e s) = tasks s
        \<or> (\<exists>task_id. tasks (step ucd cs e s) = filter (\<lambda>r. id_col r \<noteq> task_id) (tasks s))"
    using dp_callback_tasks[of uid d s] Callback by (auto split: callback_data.splits)
  then show ?thesis using j by blast
next
  case (Clock t)
  then show ?thesis by (simp add: tick_fields)
next
  case (Fire i)
  then show ?thesis using fire_jobs_tasks[of i s] by auto
next
  case (Misfire i)
  then show ?thesis using misfire_jobs_tasks[of i s] by auto
next
  case (Network uid x)
  then show ?thesis by simp
qed

section \<open>Rows and scheduler entries\<close>

lemma dt_less_trans: "dt_less a b \<Longrightarrow> dt_less b c \<Longrightarrow> dt_less a c"
  unfolding dt_less_def by (rule less_trans)

lemma step_now: "now (step ucd cs e s) = now s \<or> dt_less (now s) (now (step ucd cs e s))"
proof (cases e)
  case (Message uid msg)
  have "now (process_task_details ucd uid msg s) = now s"
  proof (cases "parse_details ucd msg")
    case (Inl err)
    then show ?thesis by (simp add: process_task_details_failed answer_def)
  next
    case (Inr p)
    obtain descr datetime_str time where p: "p = (descr, datetime_str, time)" by (cases p)
    show ?thesis using Inr
      by (simp add: p process_task_details_parsed state_clear_def answer_def add_job_def
          add_task_db_def)
  qed
  then show ?thesis using Message
    by (simp add: dp_message_cases start_handler_def answer_def)
next
  case (Callback uid d)
  then show ?thesis
    by (cases d)
      (simp_all add: menu_add_task_handler_def menu_view_tasks_other_fields
        menu_help_handler_def confirm_delete_def delete_task_callback_def delete_task_db_def
        cancel_callback_def edit_task_callback_def answer_def set_state_def update_data_def)
next
  case (Clock t)
  then show ?thesis by (simp add: tick_def)
next
  case (Fire i)
  then show ?thesis
    by (auto simp: fire_def send_reminder_def remove_job_def split: option.splits exc.splits)
next
  case (Misfire i)
  then show ?thesis by (simp add: misfire_def remove_job_def)
next
  case (Network uid x)
  then show ?thesis by simp
qed

lemma step_jobs:
  assumes "j \<in> set (jobs (step ucd cs e s))"
  shows "j \<in> set (jobs s)
       \<or> (\<exists>sender m descr datetime_str time.
            e = Message sender m \<and> parse_details ucd m = Inr (descr, datetime_str, time)
            \<and> dt_less (now s) time
            \<and> j = \<lparr>run_date = time, args = (sender, descr), misfire_grace_time = 60\<rparr>)"
proof -
  have sub: "\<And>i. set (take i (jobs s) @ drop (Suc i) (jobs s)) \<subseteq> set (jobs s)"
    using set_take_subset set_drop_subset by fastforce
  have "jobs (step ucd cs e s) = jobs s
        \<or> (\<exists>i. jobs (step ucd cs e s) = take i (jobs s) @ drop (Suc i) (jobs s))
        \<or> (\<exists>uid m descr datetime_str time.
              e = Message uid m \<and> parse_details ucd m = Inr (descr, datetime_str, time)
              \<and> dt_less (now s) time
              \<and> jobs (step ucd cs e s) =
                  jobs s @ [\<lparr>run_date = time, args = (uid, descr), misfire_grace_time = 60\<rparr>])"
    using step_effect[of ucd cs e s] by blast
  then show ?thesis
  proof (elim disjE conjE exE)
    assume "jobs (step ucd cs e s) = jobs s"
    then show ?thesis using assms by simp
  next
    fix i assume "jobs (step ucd cs e s) = take i (jobs s) @ drop (Suc i) (jobs s)"
    then show ?thesis using assms sub[of i] by auto
  next
    fix uid m descr datetime_str time
    assume "e = Message uid m" "parse_details ucd m = Inr (descr, datetime_str, time)"
      "dt_less (now s) time"
      "jobs (step ucd cs e s) =
         jobs s @ [\<lparr>run_date = time, args = (uid, descr), misfire_grace_time = 60\<rparr>]"
    then show ?thesis using assms by auto
  qed
qed

lemma run_jobs:
  assumes "j \<in> set (jobs (run ucd cs es s))"
  shows "j \<in> set (jobs s)
       \<or> (\<exists>sender m descr datetime_str time.
            Message sender m \<in> set es \<and> parse_details ucd m = Inr (descr, datetime_str, time)
            \<and> dt_less (now s) time
            \<and> j = \<lparr>run_date = time, args = (sender, descr), misfire_grace_time = 60\<rparr>)"
  using assms
proof (induction es arbitrary: s)
  case Nil
  then show ?case by simp
next
  case (Cons e es)
  from Cons.prems have "j \<in> set (jobs (run ucd cs es (step ucd cs e s)))" by simp
  from Cons.IH[OF this] show ?case
  proof
    assume "j \<in> set (jobs (step ucd cs e s))"
    from step_jobs[OF this] show ?thesis
    proof (elim disjE exE conjE)
      assume "j \<in> set (jobs s)"
      then show ?thesis by simp
    next
      fix sender m descr datetime_str time
      assume a: "e = Message sender m"
        "parse_details ucd m = Inr (descr, datetime_str, time)" "dt_less (now s) time"
        "j = \<lparr>run_date = time, args = (sender, descr), misfire_grace_time = 60\<rparr>"
      then have "Message sender m \<in> set (e # es)" by simp
      with a show ?thesis by blast
    qed
  next
    assume "\<exists>sender m descr datetime_str time.
            Message sender m \<in> set es \<and> parse_details ucd m = Inr (descr, datetime_str, time)
            \<and> dt_less (now (step ucd cs e s)) time
            \<and> j = \<lparr>run_date = time, args = (sender, descr), misfire_grace_time = 60\<rparr>"
    then obtain sender m descr datetime_str time where
      m: "Message sender m \<in> set es" "parse_details ucd m = Inr (descr, datetime_str, time)"
        "dt_less (now (step ucd cs e s)) time"
        "j = \<lparr>run_date = time, args = (sender, descr), misfire_grace_time = 60\<rparr>"
      by blast
    have "dt_less (now s) time"
      using step_now[of ucd cs e s] m(3) by (auto intro: dt_less_trans)
    moreover have "Message sender m \<in> set (e # es)" using m(1) by simp
    ultimately show ?thesis using m(2,4) by blast
  qed
qed

lemma readded_eq:
  "readded =
     \<lparr>tasks = [\<lparr>id_col = 1, user_id = 7, description = str ''Buy milk'',
                scheduled_time = t_mar\<rparr>],
      jobs = [\<lparr>run_date = t_mar, args = (7, str ''Buy milk''), misfire_grace_time = 60\<rparr>,
              \<lparr>run_date = t_mar, args = (7, str ''Buy milk''), misfire_grace_time = 60\<rparr>],
      fsm_state = (\<lambda>uid. None), fsm_data = (\<lambda>uid. None),
      sent = [(7, Task_added (str ''Buy milk'') (str ''2025-03-01 09:30'')),
              (7, Task_deleted),
              (7, Task_added (str ''Buy milk'') (str ''2025-03-01 09:30''))],
      printed = [], now = t_jan, transport = (\<lambda>uid. None)\<rparr>"
  by (simp add: readded_def added_eq delete_task_callback_def delete_task_db_def
      process_task_details_parsed[OF parse_buy_milk] add_task_db_def new_id_def add_job_def
      answer_def state_clear_def t_jan_before_t_mar fun_eq_iff)

text \<open>
  C6, as stated, fails in both halves. In \<open>fired\<close> the table holds row 1, whose time
  2025-03-01 09:30 was after the clock's 2025-01-01 00:00 when it was created, and the
  scheduler has no pending job at all, the job having fired. In \<open>readded\<close>, where the
  user added the task, deleted it and added it again, the table holds the one row with
  id 1 and the scheduler holds two pending jobs with that row's user, description and
  time, both created by an add that stored a row with id 1.
\<close>

theorem rows_and_entries_counterexample:
  "tasks fired = [\<lparr>id_col = 1, user_id = 7, description = str ''Buy milk'',
                   scheduled_time = t_mar\<rparr>]
   \<and> dt_less t_jan t_mar
   \<and> jobs fired = []
   \<and> tasks added = [\<lparr>id_col = 1, user_id = 7, description = str ''Buy milk'',
                      scheduled_time = t_mar\<rparr>]
   \<and> jobs added = [\<lparr>run_date = t_mar, args = (7, str ''Buy milk''), misfire_grace_time = 60\<rparr>]
   \<and> tasks readded = [\<lparr>id_col = 1, user_id = 7, description = str ''Buy milk'',
                        scheduled_time = t_mar\<rparr>]
   \<and> jobs readded = [\<lparr>run_date = t_mar, args = (7, str ''Buy milk''), misfire_grace_time = 60\<rparr>,
                     \<lparr>run_date = t_mar, args = (7, str ''Buy milk''), misfire_grace_time = 60\<rparr>]"
  by (simp add: fired_def added_eq readded_eq tick_def t_jan_before_t_mar fire_def due_def
      dt_less_irrefl send_reminder_def remove_job_def)

text \<open>
  C6, amended. Scheduler entries are created by adds only. A request that parses stores
  its row, and adds one job, with the row's time, user and description, if and only if
  the time is after the clock's at that moment; otherwise it adds none. No other step
  creates a job: a step leaves the jobs as they are, or takes one out, or is such a
  request. So in every state a run reaches, each pending job was pending at the start
  or is the job of an add request of the run whose time lay in the future. A job that
  is due and fires leaves the scheduler, and so does a job that is dropped after its run
  date, the row staying in the table; confirming the deletion of a row removes no job. Hence a row may be
  without a pending job although its time was in the future at creation, and one row
  may face more than one pending job.
\<close>

theorem scheduler_entries:
  "(parse_details ucd m = Inr (d, ds, t) \<longrightarrow>
        tasks (process_task_details ucd sender m s) =
          tasks s @ [\<lparr>id_col = new_id (tasks s), user_id = sender, description = d,
                      scheduled_time = t\<rparr>]
        \<and> (jobs (process_task_details ucd sender m s) =
               jobs s @ [\<lparr>run_date = t, args = (sender, d), misfire_grace_time = 60\<rparr>]
             \<longleftrightarrow> dt_less (now s) t)
        \<and> (jobs (process_task_details ucd sender m s) = jobs s \<longleftrightarrow> \<not> dt_less (now s) t))
   \<and> (jobs (step ucd cs e s) = jobs s
       \<or> (\<exists>i. i < length (jobs s)
            \<and> jobs (step ucd cs e s) = take i (jobs s) @ drop (Suc i) (jobs s)
            \<and> tasks (step ucd cs e s) = tasks s)
       \<or> (\<exists>uid msg descr datetime_str time.
            e = Message uid msg
            \<and> parse_details ucd msg = Inr (descr, datetime_str, time)
            \<and> dt_less (now s) time
            \<and> tasks (step ucd cs e s) =
                tasks s @ [\<lparr>id_col = new_id (tasks s), user_id = uid, description = descr,
                            scheduled_time = time\<rparr>]
            \<and> jobs (step ucd cs e s) =
                jobs s @ [\<lparr>run_date = time, args = (uid, descr), misfire_grace_time = 60\<rparr>]))
   \<and> (\<forall>j\<in>set (jobs (run ucd cs es s)).
         j \<in> set (jobs s)
         \<or> (\<exists>uid msg descr datetime_str time.
              Message uid msg \<in> set es
              \<and> parse_details ucd msg = Inr (descr, datetime_str, time)
              \<and> dt_less (now s) time
              \<and> j = \<lparr>run_date = time, args = (uid, descr), misfire_grace_time = 60\<rparr>))
   \<and> (due i s \<longrightarrow>
         jobs (step ucd cs (Fire i) s) = take i (jobs s) @ drop (Suc i) (jobs s)
         \<and> tasks (step ucd cs (Fire i) s) = tasks s)
   \<and> (i < length (jobs s) \<and> dt_less (run_date (jobs s ! i)) (now s) \<longrightarrow>
         jobs (step ucd cs (Misfire i) s) = take i (jobs s) @ drop (Suc i) (jobs s)
         \<and> tasks (step ucd cs (Misfire i) s) = tasks s)
   \<and> jobs (step ucd cs (Callback chat (Data_confirm_delete task_id)) s) = jobs s"
proof -
  have add: "parse_details ucd m = Inr (d, ds, t) \<longrightarrow>
        tasks (process_task_details ucd sender m s) =
          tasks s @ [\<lparr>id_col = new_id (tasks s), user_id = sender, description = d,
                      scheduled_time = t\<rparr>]
        \<and> (jobs (process_task_details ucd sender m s) =
               jobs s @ [\<lparr>run_date = t, args = (sender, d), misfire_grace_time = 60\<rparr>]
             \<longleftrightarrow> dt_less (now s) t)
        \<and> (jobs (process_task_details ucd sender m s) = jobs s \<longleftrightarrow> \<not> dt_less (now s) t)"
    using process_task_details_tasks_jobs[where m=m and uid=sender and s=s and ucd=ucd]
    by (auto split: if_splits)
  have st: "jobs (step ucd cs e s) = jobs s
       \<or> (\<exists>i. i < length (jobs s)
            \<and> jobs (step ucd cs e s) = take i (jobs s) @ drop (Suc i) (jobs s)
            \<and> tasks (step ucd cs e s) = tasks s)
       \<or> (\<exists>uid msg descr datetime_str time.
            e = Message uid msg
            \<and> parse_details ucd msg = Inr (descr, datetime_str, time)
            \<and> dt_less (now s) time
            \<and> tasks (step ucd cs e s) =
                tasks s @ [\<lparr>id_col = new_id (tasks s), user_id = uid, description = descr,
                            scheduled_time = time\<rparr>]
            \<and> jobs (step ucd cs e s) =
                jobs s @ [\<lparr>run_date = time, args = (uid, descr), misfire_grace_time = 60\<rparr>])"
    using step_effect[of ucd cs e s] by blast
  have inv: "\<forall>j\<in>set (jobs (run ucd cs es s)).
         j \<in> set (jobs s)
         \<or> (\<exists>uid msg descr datetime_str time.
              Message uid msg \<in> set es
              \<and> parse_details ucd msg = Inr (descr, datetime_str, time)
              \<and> dt_less (now s) time
              \<and> j = \<lparr>run_date = time, args = (uid, descr), misfire_grace_time = 60\<rparr>)"
    using run_jobs[of _ ucd cs es s] by blast
  have fi: "due i s \<longrightarrow>
         jobs (step ucd cs (Fire i) s) = take i (jobs s) @ drop (Suc i) (jobs s)
         \<and> tasks (step ucd cs (Fire i) s) = tasks s"
    by (auto simp: fire_def send_reminder_def remove_job_def split: option.splits exc.splits)
  have mi: "i < length (jobs s) \<and> dt_less (run_date (jobs s ! i)) (now s) \<longrightarrow>
         jobs (step ucd cs (Misfire i) s) = take i (jobs s) @ drop (Suc i) (jobs s)
         \<and> tasks (step ucd cs (Misfire i) s) = tasks s"
    by (simp add: misfire_def remove_job_def)
  have de: "jobs (step ucd cs (Callback chat (Data_confirm_delete task_id)) s) = jobs s"
    by (simp add: delete_task_callback_def delete_task_db_def answer_def)
  show ?thesis using add st inv fi mi de by (intro conjI) assumption+
qed

theorem scheduler_entries_witness:
  "parse_details plain_table (str ''Buy milk 2025-03-01 09:30'')
     = Inr (str ''Buy milk'', str ''2025-03-01 09:30'', t_mar)
   \<and> dt_less (now (startup t_jan)) t_mar
   \<and> jobs (process_task_details plain_table 7 (str ''Buy milk 2025-03-01 09:30'')
             (startup t_jan)) =
       [\<lparr>run_date = t_mar, args = (7, str ''Buy milk''), misfire_grace_time = 60\<rparr>]
   \<and> due 0 (tick t_mar added)
   \<and> jobs (fire 0 (tick t_mar added)) = []
   \<and> tasks (fire 0 (tick t_mar added)) = tasks added
   \<and> 0 < length (jobs (tick t_late added))
   \<and> dt_less (run_date (jobs (tick t_late added) ! 0)) (now (tick t_late added))
   \<and> jobs (misfire 0 (tick t_late added)) = []
   \<and> tasks (misfire 0 (tick t_late added)) = tasks added"
proof -
  have h1: "dt_less (now (startup t_jan)) t_mar" by (simp add: startup_def t_jan_before_t_mar)
  have g: "jobs (startup t_jan) = []" by (simp add: startup_def)
  have late: "dt_less t_jan t_late" "dt_less t_mar t_late"
    by (simp_all add: dt_less_def dt_key_def t_jan_def t_mar_def t_late_def)
  have e: "tick t_mar added = added\<lparr>now := t_mar\<rparr>" "tick t_late added = added\<lparr>now := t_late\<rparr>"
    by (simp_all add: tick_def added_eq t_jan_before_t_mar late)
  have h2: "due 0 (tick t_mar added)"
    unfolding e by (simp add: due_def added_eq dt_less_irrefl)
  have h3: "0 < length (jobs (tick t_late added))
            \<and> dt_less (run_date (jobs (tick t_late added) ! 0)) (now (tick t_late added))"
    unfolding e by (simp add: added_eq late)
  have f: "jobs (tick t_mar added) =
             [\<lparr>run_date = t_mar, args = (7, str ''Buy milk''), misfire_grace_time = 60\<rparr>]"
    "jobs (tick t_late added) =
             [\<lparr>run_date = t_mar, args = (7, str ''Buy milk''), misfire_grace_time = 60\<rparr>]"
    "tasks (tick t_mar added) = tasks added" "tasks (tick t_late added) = tasks added"
    unfolding e by (simp_all add: added_eq)
  show ?thesis
    using parse_buy_milk[of plain_table] h1 h2 h3
      scheduler_entries[where ucd=plain_table and m="str ''Buy milk 2025-03-01 09:30''"
        and s="startup t_jan" and d="str ''Buy milk''" and ds="str ''2025-03-01 09:30''"
        and t=t_mar and sender=7 and e="Clock t_jan" and cs="\<lambda>m. False" and es="[]"
        and i=0 and task_id=1 and chat=7]
      scheduler_entries[where ucd=plain_table and m="[]" and s="tick t_mar added"
        and d="[]" and ds="[]" and t=t_mar and sender=7 and e="Clock t_jan"
        and cs="\<lambda>m. False" and es="[]" and i=0 and task_id=1 and chat=7]
      scheduler_entries[where ucd=plain_table and m="[]" and s="tick t_late added"
        and d="[]" and ds="[]" and t=t_mar and sender=7 and e="Clock t_jan"
        and cs="\<lambda>m. False" and es="[]" and i=0 and task_id=1 and chat=7]
    by (simp add: g f)
qed

section \<open>The edit flow\<close>

lemma step_rows:
  assumes "r \<in> set (tasks (step ucd cs e s))"
  shows "r \<in> set (tasks s)
       \<or> (\<exists>uid m descr datetime_str time.
            e = Message uid m \<and> parse_details ucd m = Inr (descr, datetime_str, time)
            \<and> tasks (step ucd cs e s) = tasks s @ [r]
            \<and> user_id r = uid \<and> description r = descr \<and> scheduled_time r = time)"
  using step_effect[of ucd cs e s] assms by (elim disjE conjE exE) auto

lemma run_rows:
  assumes "r \<in> set (tasks (run ucd cs es s))"
  shows "r \<in> set (tasks s)
       \<or> (\<exists>uid m descr datetime_str time.
            Message uid m \<in> set es \<and> parse_details ucd m = Inr (descr, datetime_str, time)
            \<and> user_id r = uid \<and> description r = descr \<and> scheduled_time r = time)"
  using assms
proof (induction es arbitrary: s)
  case Nil
  then show ?case by simp
next
  case (Cons e es)
  from Cons.prems have "r \<in> set (tasks (run ucd cs es (step ucd cs e s)))" by simp
  from Cons.IH[OF this] show ?case
  proof
    assume "r \<in> set (tasks (step ucd cs e s))"
    from step_rows[OF this] show ?thesis by auto
  next
    assume "\<exists>uid m descr datetime_str time.
            Message uid m \<in> set es \<and> parse_details ucd m = Inr (descr, datetime_str, time)
            \<and> user_id r = uid \<and> description r = descr \<and> scheduled_time r = time"
    then show ?thesis by auto
  qed
qed

text \<open>
  C9. Pressing the edit button stores \<open>edit_task_id\<close> and leaves the FSM state as it
  is; for no message and no FSM state does the dispatcher select
  \<open>process_new_description\<close>, which stands behind \<open>process_task_details\<close> under the
  same state filter. So no step of the bot rewrites a row: after a step every row of the
  table was there before, or is the one row the step appended; and after any sequence of
  events every row either was in the table at the start or has the user, description and
  time of an add request of the sequence.
\<close>

theorem new_description_handler_is_dead:
  "fsm_state (edit_task_callback task_id uid s) = fsm_state s
   \<and> fsm_data (edit_task_callback task_id uid s) uid = Some task_id
   \<and> selected cs msg st \<noteq> Some Process_new_description
   \<and> (\<forall>r\<in>set (tasks (step ucd cs e s)).
        r \<in> set (tasks s) \<or> tasks (step ucd cs e s) = tasks s @ [r])
   \<and> (\<forall>r\<in>set (tasks (run ucd cs es s)).
        r \<in> set (tasks s)
        \<or> (\<exists>sender m descr datetime_str time.
             Message sender m \<in> set es \<and> parse_details ucd m = Inr (descr, datetime_str, time)
             \<and> user_id r = sender \<and> description r = descr \<and> scheduled_time r = time))"
proof -
  have a: "fsm_state (edit_task_callback task_id uid s) = fsm_state s
           \<and> fsm_data (edit_task_callback task_id uid s) uid = Some task_id"
    by (simp add: edit_task_callback_def answer_def update_data_def)
  have b: "selected cs msg st \<noteq> Some Process_new_description"
    by (rule process_new_description_not_selected)
  have c: "\<forall>r\<in>set (tasks (step ucd cs e s)).
             r \<in> set (tasks s) \<or> tasks (step ucd cs e s) = tasks s @ [r]"
    using step_rows[of _ ucd cs e s] by blast
  have d: "\<forall>r\<in>set (tasks (run ucd cs es s)).
        r \<in> set (tasks s)
        \<or> (\<exists>sender m descr datetime_str time.
             Message sender m \<in> set es \<and> parse_details ucd m = Inr (descr, datetime_str, time)
             \<and> user_id r = sender \<and> description r = descr \<and> scheduled_time r = time)"
    using run_rows[of _ ucd cs es s] by blast
  show ?thesis using a b c d by blast
qed

theorem new_description_handler_is_dead_witness:
  "fsm_state (edit_task_callback 1 7 added) 7 = None
   \<and> fsm_data (edit_task_callback 1 7 added) 7 = Some 1
   \<and> map description
        (tasks (run plain_table (\<lambda>m. False) [Callback 7 (Data_edit 1), Message 7 (str ''Buy bread'')] added))
       = [str ''Buy milk'']"
proof -
  have r: "run plain_table (\<lambda>m. False) [Callback 7 (Data_edit 1), Message 7 (str ''Buy bread'')] added
             = edit_task_callback 1 7 added"
    by (simp add: dp_message_cases edit_task_callback_def answer_def update_data_def added_eq)
  show ?thesis
    using new_description_handler_is_dead[where task_id=1 and uid=7 and s=added
        and ucd=plain_table and cs="\<lambda>m. False" and msg="str ''Buy bread''" and st=None
        and e="Message 7 (str ''Buy bread'')"
        and es="[Callback 7 (Data_edit 1), Message 7 (str ''Buy bread'')]"]
    unfolding r
    by (simp add: edit_task_callback_def answer_def update_data_def added_eq)
qed

end
